theory Spec2Isabelle
  imports Complex_Main "HOL-Library.Word" "HOL-Library.AList"
begin

section \<open>Python values shared by the modules\<close>

text \<open>
  Python strings are modelled as \<^typ>\<open>string\<close>; a character outside ASCII is written as
  its UTF-8 bytes. The accented letters of the agent's French messages:
\<close>

definition e_acute :: string where
  "e_acute = [CHR 0xC3, CHR 0xA9]"

definition E_acute :: string where
  "E_acute = [CHR 0xC3, CHR 0x89]"

definition e_grave :: string where
  "e_grave = [CHR 0xC3, CHR 0xA8]"

definition a_grave :: string where
  "a_grave = [CHR 0xC3, CHR 0xA0]"

subsection \<open>\<open>str(n)\<close> for an integer\<close>

definition digit_char :: "nat \<Rightarrow> char" where
  "digit_char d =
     (if d = 0 then CHR ''0'' else if d = 1 then CHR ''1'' else if d = 2 then CHR ''2''
      else if d = 3 then CHR ''3'' else if d = 4 then CHR ''4'' else if d = 5 then CHR ''5''
      else if d = 6 then CHR ''6'' else if d = 7 then CHR ''7'' else if d = 8 then CHR ''8''
      else CHR ''9'')"

function str_nat :: "nat \<Rightarrow> string" where
  "str_nat n = (if n < 10 then [digit_char n] else str_nat (n div 10) @ [digit_char (n mod 10)])"
  by pat_completeness auto
termination
  by (relation "measure (\<lambda>n. n)") auto

declare str_nat.simps [simp del]

definition str_int :: "int \<Rightarrow> string" where
  "str_int i = (if i < 0 then CHR ''-'' # str_nat (nat (- i)) else str_nat (nat i))"

subsection \<open>\<open>str.strip()\<close>\<close>

definition py_isspace :: "char \<Rightarrow> bool" where
  "py_isspace c = (c \<in> set [CHR '' '', CHR 0x09, CHR 0x0A, CHR 0x0B, CHR 0x0C, CHR 0x0D,
                              CHR 0x1C, CHR 0x1D, CHR 0x1E, CHR 0x1F])"

definition py_strip :: "string \<Rightarrow> string" where
  "py_strip s = rev (dropWhile py_isspace (rev (dropWhile py_isspace s)))"

subsection \<open>Exceptions\<close>

datatype exn =
    ValueError string
  | TypeError string
  | AttributeError string
  | OverflowError string
  | OSError string
  | RuntimeError string
  | UpdateError string

subsection \<open>\<open>int(s)\<close> for a string, \<open>str(n)\<close> with the digit limit\<close>

text \<open>
  What the interpreter decides and the text of the program does not: the limit on the digits
  of an integer converted from or to a string (\<open>sys.get_int_max_str_digits()\<close>, 4300 unless
  changed, 0 for none; the interpreter does not apply it up to 640 digits), and the reading
  of a string that holds a character outside ASCII, for which \<open>int\<close> consults the Unicode
  tables of digits and spaces.
\<close>

record py_runtime =
  int_max_str_digits :: nat
  int_of_non_ascii :: "string \<Rightarrow> int option"

definition is_ascii :: "string \<Rightarrow> bool" where
  "is_ascii s = list_all (\<lambda>c. (of_char c :: nat) < 128) s"

definition exceeds_digit_limit :: "py_runtime \<Rightarrow> nat \<Rightarrow> bool" where
  "exceeds_digit_limit rt digits =
     (0 < int_max_str_digits rt \<and> int_max_str_digits rt < digits \<and> 640 < digits)"

text \<open>
  On ASCII text \<open>int(s)\<close> skips the six C white-space characters at both ends (not the
  separators \<open>0x1C\<close> to \<open>0x1F\<close> that \<open>str.strip\<close> removes), reads an optional sign and then
  decimal digits, where single underscores may separate digits, and refuses more digits than
  the limit; anything else raises \<open>ValueError\<close> (\<open>None\<close> here).
\<close>

definition c_isspace :: "char \<Rightarrow> bool" where
  "c_isspace c = (c \<in> set [CHR '' '', CHR 0x09, CHR 0x0A, CHR 0x0B, CHR 0x0C, CHR 0x0D])"

definition c_strip :: "string \<Rightarrow> string" where
  "c_strip s = rev (dropWhile c_isspace (rev (dropWhile c_isspace s)))"

definition py_isdigit :: "char \<Rightarrow> bool" where
  "py_isdigit c = (c \<in> set ''0123456789'')"

definition digit_val :: "char \<Rightarrow> nat" where
  "digit_val c = of_char c - 48"

fun digits_ok :: "string \<Rightarrow> bool" where
  "digits_ok [] = False"
| "digits_ok [c] = py_isdigit c"
| "digits_ok (c # d # cs) =
     (py_isdigit c \<and> (if d = CHR ''_'' then digits_ok cs else digits_ok (d # cs)))"

definition nat_of_digits :: "string \<Rightarrow> nat" where
  "nat_of_digits s = foldl (\<lambda>acc c. 10 * acc + digit_val c) 0 (filter (\<lambda>c. c \<noteq> CHR ''_'') s)"

definition int_of_ascii :: "py_runtime \<Rightarrow> string \<Rightarrow> int option" where
  "int_of_ascii rt s =
     (let t = c_strip s;
          neg = (case t of [] \<Rightarrow> False | c # _ \<Rightarrow> c = CHR ''-'');
          body = (case t of [] \<Rightarrow> [] | c # r \<Rightarrow> if c = CHR ''-'' \<or> c = CHR ''+'' then r else t)
      in if digits_ok body
            \<and> \<not> exceeds_digit_limit rt (length (filter (\<lambda>c. c \<noteq> CHR ''_'') body))
         then Some (if neg then - int (nat_of_digits body) else int (nat_of_digits body))
         else None)"

definition py_int :: "py_runtime \<Rightarrow> string \<Rightarrow> int option" where
  "py_int rt s = (if is_ascii s then int_of_ascii rt s else int_of_non_ascii rt s)"

text \<open>\<open>str(n)\<close> where the digit limit is in force: it raises \<open>ValueError\<close> beyond the limit.\<close>

definition py_str :: "py_runtime \<Rightarrow> int \<Rightarrow> exn + string" where
  "py_str rt n =
     (if exceeds_digit_limit rt (length (str_nat (nat \<bar>n\<bar>)))
      then Inl (ValueError ''Exceeds the limit for integer string conversion'')
      else Inr (str_int n))"

subsection \<open>An example interpreter\<close>

text \<open>
  The default limit of 4300 digits; of the text outside ASCII it reads only the Arabic-Indic
  digits three, zero (\<open>30\<close>).
\<close>

definition arabic_indic_30 :: string where
  "arabic_indic_30 = [CHR 0xD9, CHR 0xA3, CHR 0xD9, CHR 0xA0]"

definition read_arabic_indic_30 :: "string \<Rightarrow> int option" where
  "read_arabic_indic_30 s = (if s = arabic_indic_30 then Some 30 else None)"

definition default_runtime :: py_runtime where
  "default_runtime = \<lparr>int_max_str_digits = 4300, int_of_non_ascii = read_arabic_indic_30\<rparr>"

section \<open>lib/firewall.py: FirewallManager\<close>

text \<open>
  The manager's own data are \<open>firewall_type\<close> and \<open>state["opened_ports"]\<close>. Everything else
  it touches is the host: the state file, the effective user id and the programs it starts with
  \<open>subprocess.run\<close>. The outcome of a started program is not decided by the agent, so it is
  an oracle \<open>subprocess_run\<close> that may depend on every command run before; \<open>ran\<close> records, in
  order, the argument vectors handed to \<open>subprocess.run\<close>. Log lines are not modelled.
\<close>

datatype fw_type = Ufw | Firewalld | Iptables

type_synonym port_entry = "int \<times> string"

type_synonym cmd = "string list"

datatype proc_result =
    Exited int string string
  | TimeoutExpired
  | FileNotFoundError
  | OtherException string

record fw =
  firewall_type :: "fw_type option"
  opened_ports :: "port_entry list"
  state_file :: "port_entry list option"
  state_dir_writable :: bool
  euid_root :: bool
  subprocess_run :: "cmd list \<Rightarrow> cmd \<Rightarrow> proc_result"
  ran :: "cmd list"

subsection \<open>\<open>_save_state\<close> and \<open>_run_command\<close>\<close>

definition save_state :: "fw \<Rightarrow> fw" where
  "save_state w =
     (if state_dir_writable w then w\<lparr>state_file := Some (opened_ports w)\<rparr> else w)"

definition run_command :: "cmd \<Rightarrow> fw \<Rightarrow> (bool \<times> string) \<times> fw" where
  "run_command c w =
     (let c' = (if \<not> euid_root w then ''sudo'' # c else c);
          w' = w\<lparr>ran := ran w @ [c']\<rparr>
      in case subprocess_run w (ran w) c' of
           Exited rc out err \<Rightarrow>
             (if rc = 0 then ((True, py_strip out), w')
              else ((False, if py_strip err \<noteq> [] then py_strip err else py_strip out), w'))
         | TimeoutExpired \<Rightarrow> ((False, ''Commande timeout''), w')
         | FileNotFoundError \<Rightarrow>
             ((False, ''Commande non trouv'' @ e_acute @ ''e: '' @ hd c'), w')
         | OtherException m \<Rightarrow> ((False, m), w'))"

subsection \<open>The three backends\<close>

definition port_spec :: "int \<Rightarrow> string \<Rightarrow> string" where
  "port_spec port protocol = str_int port @ ''/'' @ protocol"

definition ufw_open_port :: "int \<Rightarrow> string \<Rightarrow> fw \<Rightarrow> (bool \<times> string) \<times> fw" where
  "ufw_open_port port protocol w = run_command [''ufw'', ''allow'', port_spec port protocol] w"

definition ufw_close_port :: "int \<Rightarrow> string \<Rightarrow> fw \<Rightarrow> (bool \<times> string) \<times> fw" where
  "ufw_close_port port protocol w =
     run_command [''ufw'', ''delete'', ''allow'', port_spec port protocol] w"

definition firewalld_open_port :: "int \<Rightarrow> string \<Rightarrow> fw \<Rightarrow> (bool \<times> string) \<times> fw" where
  "firewalld_open_port port protocol w =
     (case run_command [''firewall-cmd'', ''--permanent'', ''--add-port'', port_spec port protocol] w of
        ((success, message), w1) \<Rightarrow>
          if \<not> success then ((success, message), w1)
          else run_command [''firewall-cmd'', ''--reload''] w1)"

definition firewalld_close_port :: "int \<Rightarrow> string \<Rightarrow> fw \<Rightarrow> (bool \<times> string) \<times> fw" where
  "firewalld_close_port port protocol w =
     (case run_command [''firewall-cmd'', ''--permanent'', ''--remove-port'', port_spec port protocol] w of
        ((success, message), w1) \<Rightarrow>
          if \<not> success then ((success, message), w1)
          else run_command [''firewall-cmd'', ''--reload''] w1)"

definition save_commands :: "cmd list" where
  "save_commands =
     [[''iptables-save'', ''-f'', ''/etc/iptables/rules.v4''],
      [''service'', ''iptables'', ''save''],
      [''netfilter-persistent'', ''save'']]"

fun save_iptables_loop :: "cmd list \<Rightarrow> fw \<Rightarrow> fw" where
  "save_iptables_loop [] w = w"
| "save_iptables_loop (c # cs) w =
     (case run_command c w of
        ((success, _), w1) \<Rightarrow> if success then w1 else save_iptables_loop cs w1)"

definition save_iptables :: "fw \<Rightarrow> fw" where
  "save_iptables w = save_iptables_loop save_commands w"

definition iptables_open_port :: "int \<Rightarrow> string \<Rightarrow> fw \<Rightarrow> (bool \<times> string) \<times> fw" where
  "iptables_open_port port protocol w =
     (case run_command [''iptables'', ''-C'', ''INPUT'', ''-p'', protocol,
                        ''--dport'', str_int port, ''-j'', ''ACCEPT''] w of
        ((exists, _), w1) \<Rightarrow>
          if exists then ((True, ''R'' @ e_grave @ ''gle existe d'' @ e_acute @ ''j'' @ a_grave), w1)
          else
            (case run_command [''iptables'', ''-I'', ''INPUT'', ''-p'', protocol,
                               ''--dport'', str_int port, ''-j'', ''ACCEPT''] w1 of
               ((success, message), w2) \<Rightarrow>
                 ((success, message), if success then save_iptables w2 else w2)))"

definition iptables_close_port :: "int \<Rightarrow> string \<Rightarrow> fw \<Rightarrow> (bool \<times> string) \<times> fw" where
  "iptables_close_port port protocol w =
     (case run_command [''iptables'', ''-D'', ''INPUT'', ''-p'', protocol,
                        ''--dport'', str_int port, ''-j'', ''ACCEPT''] w of
        ((success, message), w1) \<Rightarrow>
          ((success, message), if success then save_iptables w1 else w1))"

subsection \<open>\<open>open_port\<close>, \<open>close_port\<close>, \<open>update_port\<close>\<close>

definition backend_open :: "fw_type \<Rightarrow> int \<Rightarrow> string \<Rightarrow> fw \<Rightarrow> (bool \<times> string) \<times> fw" where
  "backend_open t port protocol w =
     (case t of
        Ufw \<Rightarrow> ufw_open_port port protocol w
      | Firewalld \<Rightarrow> firewalld_open_port port protocol w
      | Iptables \<Rightarrow> iptables_open_port port protocol w)"

definition backend_close :: "fw_type \<Rightarrow> int \<Rightarrow> string \<Rightarrow> fw \<Rightarrow> (bool \<times> string) \<times> fw" where
  "backend_close t port protocol w =
     (case t of
        Ufw \<Rightarrow> ufw_close_port port protocol w
      | Firewalld \<Rightarrow> firewalld_close_port port protocol w
      | Iptables \<Rightarrow> iptables_close_port port protocol w)"

definition open_port :: "int \<Rightarrow> string \<Rightarrow> fw \<Rightarrow> (bool \<times> string) \<times> fw" where
  "open_port port protocol w =
     (case firewall_type w of
        None \<Rightarrow> ((True, ''Aucun firewall actif''), w)
      | Some t \<Rightarrow>
          (case backend_open t port protocol w of
             ((success, message), w1) \<Rightarrow>
               if success then
                 (if (port, protocol) \<notin> set (opened_ports w1)
                  then ((success, message),
                        save_state (w1\<lparr>opened_ports := opened_ports w1 @ [(port, protocol)]\<rparr>))
                  else ((success, message), w1))
               else ((success, message), w1)))"

definition close_port :: "int \<Rightarrow> string \<Rightarrow> fw \<Rightarrow> (bool \<times> string) \<times> fw" where
  "close_port port protocol w =
     (case firewall_type w of
        None \<Rightarrow> ((True, ''Aucun firewall actif''), w)
      | Some t \<Rightarrow>
          (case backend_close t port protocol w of
             ((success, message), w1) \<Rightarrow>
               if success then
                 (if (port, protocol) \<in> set (opened_ports w1)
                  then ((success, message),
                        save_state (w1\<lparr>opened_ports := remove1 (port, protocol) (opened_ports w1)\<rparr>))
                  else ((success, message), w1))
               else ((success, message), w1)))"

definition update_port :: "int \<Rightarrow> int \<Rightarrow> string \<Rightarrow> fw \<Rightarrow> (bool \<times> string) \<times> fw" where
  "update_port old_port new_port protocol w =
     (if old_port = new_port then ((True, ''Port inchang'' @ e_acute), w)
      else
        (case open_port new_port protocol w of
           ((success, message), w1) \<Rightarrow>
             if \<not> success
             then ((False, E_acute @ ''chec ouverture nouveau port: '' @ message), w1)
             else
               (case close_port old_port protocol w1 of
                  ((close_success, close_message), w2) \<Rightarrow>
                    ((True, ''Port chang'' @ e_acute @ '' de '' @ str_int old_port
                            @ '' '' @ a_grave @ '' '' @ str_int new_port), w2))))"

subsection \<open>Reading the command trace\<close>




text \<open>
  \<open>extends w w' t\<close>: the host state \<open>w'\<close> is \<open>w\<close> after running the commands \<open>t\<close> and nothing
  else. \<open>open_argvs\<close> and \<open>close_argvs\<close> list every argument vector the opening and the closing
  of a port can run.
\<close>

definition extends :: "fw \<Rightarrow> fw \<Rightarrow> cmd list \<Rightarrow> bool" where
  "extends w w' t = (w' = w\<lparr>ran := ran w @ t\<rparr>)"

definition with_sudo :: "cmd list \<Rightarrow> cmd set" where
  "with_sudo cs = set cs \<union> set (map (Cons ''sudo'') cs)"

definition open_argvs :: "int \<Rightarrow> string \<Rightarrow> cmd list" where
  "open_argvs port protocol =
     [[''ufw'', ''allow'', port_spec port protocol],
      [''firewall-cmd'', ''--permanent'', ''--add-port'', port_spec port protocol],
      [''firewall-cmd'', ''--reload''],
      [''iptables'', ''-C'', ''INPUT'', ''-p'', protocol, ''--dport'', str_int port, ''-j'', ''ACCEPT''],
      [''iptables'', ''-I'', ''INPUT'', ''-p'', protocol, ''--dport'', str_int port, ''-j'', ''ACCEPT'']]
     @ save_commands"







subsection \<open>Example hosts\<close>

text \<open>
  A host with ufw active where the agent runs unprivileged and \<open>ufw delete\<close> fails, and a host
  with no firewall.
\<close>

definition ufw_delete_fails :: "cmd list \<Rightarrow> cmd \<Rightarrow> proc_result" where
  "ufw_delete_fails history c =
     (if ''delete'' \<in> set c then Exited 1 [] ''ERROR: Could not delete rule''
      else Exited 0 ''Rule added'' [])"

definition ufw_host :: fw where
  "ufw_host =
     \<lparr>firewall_type = Some Ufw, opened_ports = [(8080, ''tcp'')],
      state_file = Some [(8080, ''tcp'')], state_dir_writable = True, euid_root = False,
      subprocess_run = ufw_delete_fails, ran = []\<rparr>"

definition ufw_host_opened :: fw where
  "ufw_host_opened =
     ufw_host\<lparr>opened_ports := [(8080, ''tcp''), (8090, ''tcp'')],
              state_file := Some [(8080, ''tcp''), (8090, ''tcp'')],
              ran := [[''sudo'', ''ufw'', ''allow'', ''8090/tcp'']]\<rparr>"

definition bare_host :: fw where
  "bare_host =
     \<lparr>firewall_type = None, opened_ports = [], state_file = None, state_dir_writable = True,
      euid_root = True, subprocess_run = ufw_delete_fails, ran = []\<rparr>"

section \<open>lib/pam_auth.py: authentication and sessions\<close>

subsection \<open>Messages\<close>

definition msg_required :: string where
  "msg_required = ''Nom d'' @ [CHR 0x27] @ ''utilisateur et mot de passe requis''"

definition msg_invalid_username :: string where
  "msg_invalid_username = ''Nom d'' @ [CHR 0x27] @ ''utilisateur invalide''"

definition msg_auth_failed :: string where
  "msg_auth_failed = ''Authentification '' @ e_acute @ ''chou'' @ e_acute @ ''e''"

definition msg_not_authorized :: string where
  "msg_not_authorized = ''Utilisateur non autoris'' @ e_acute"

definition msg_auth_ok :: string where
  "msg_auth_ok = ''Authentification r'' @ e_acute @ ''ussie''"

subsection \<open>The host as \<open>PAMAuth\<close> sees it\<close>

text \<open>
  \<open>passwd\<close> maps a user name to its primary group id (\<open>pwd.getpwnam\<close>), \<open>group_by_gid\<close> a
  group id to the group's name (\<open>grp.getgrgid\<close>) and \<open>group_members\<close> a group name to its
  member list (\<open>grp.getgrnam\<close>); a missing key is the \<open>KeyError\<close> of the Python module.
  The PAM library, \<open>spwd\<close>, \<open>crypt\<close> and passlib are the host's: their answers are oracles,
  \<open>Inl\<close> carrying the text of a raised exception. \<open>isalnum_non_ascii\<close> is \<open>str.isalnum\<close>
  on a string that holds a character outside ASCII, which the interpreter decides from the
  Unicode tables of letters and digits.
\<close>

datatype spwd_result =
    ShadowEntry string
  | ShadowKeyError
  | ShadowPermissionError
  | ShadowException string

record auth_env =
  pam_available :: bool
  shadow_available :: bool
  shadow_backend :: "string option"
  ALLOWED_GROUPS :: "string list"
  passwd :: "string \<rightharpoonup> nat"
  group_by_gid :: "nat \<rightharpoonup> string"
  group_members :: "string \<rightharpoonup> string list"
  pam_authenticate :: "string \<Rightarrow> string \<Rightarrow> string \<Rightarrow> string + bool"
  pam_reason :: string
  getspnam :: "string \<Rightarrow> spwd_result"
  crypt_crypt :: "string \<Rightarrow> string \<Rightarrow> string + string"
  passlib_verify :: "string \<Rightarrow> string \<Rightarrow> string + bool"
  isalnum_non_ascii :: "string \<Rightarrow> bool"

subsection \<open>\<open>str.isalnum\<close> and \<open>compare_digest\<close>\<close>

text \<open>
  \<open>s.isalnum()\<close>: on ASCII text, \<open>s\<close> is not empty and every character is an ASCII letter or
  digit; on other text the interpreter's tables decide.
\<close>

definition ascii_isalnum_char :: "char \<Rightarrow> bool" where
  "ascii_isalnum_char c =
     (let n = (of_char c :: nat)
      in (48 \<le> n \<and> n \<le> 57) \<or> (65 \<le> n \<and> n \<le> 90) \<or> (97 \<le> n \<and> n \<le> 122))"

definition py_isalnum :: "(string \<Rightarrow> bool) \<Rightarrow> string \<Rightarrow> bool" where
  "py_isalnum non_ascii s =
     (if is_ascii s then s \<noteq> [] \<and> list_all ascii_isalnum_char s else non_ascii s)"

definition py_replace_char :: "char \<Rightarrow> string \<Rightarrow> string" where
  "py_replace_char c s = filter (\<lambda>x. x \<noteq> c) s"

text \<open>
  \<open>compare_digest\<close> on two \<open>str\<close> raises \<open>TypeError\<close> unless both are ASCII; otherwise it
  is equality.
\<close>

definition compare_digest :: "string \<Rightarrow> string \<Rightarrow> string + bool" where
  "compare_digest a b =
     (if is_ascii a \<and> is_ascii b then Inr (a = b)
      else Inl ''comparing strings with non-ASCII characters is not supported'')"

subsection \<open>\<open>PAMAuth\<close>\<close>

definition user_exists :: "auth_env \<Rightarrow> string \<Rightarrow> bool" where
  "user_exists env username = (passwd env username \<noteq> None)"

fun supplementary_loop :: "auth_env \<Rightarrow> string \<Rightarrow> string list \<Rightarrow> bool" where
  "supplementary_loop env username [] = False"
| "supplementary_loop env username (group_name # rest) =
     (case group_members env group_name of
        None \<Rightarrow> supplementary_loop env username rest
      | Some members \<Rightarrow>
          if username \<in> set members then True else supplementary_loop env username rest)"

definition user_in_groups :: "auth_env \<Rightarrow> string \<Rightarrow> string list \<Rightarrow> bool" where
  "user_in_groups env username allowed_groups =
     (case passwd env username of
        None \<Rightarrow> False
      | Some primary_gid \<Rightarrow>
          (case group_by_gid env primary_gid of
             None \<Rightarrow> False
           | Some primary_group \<Rightarrow>
               if primary_group \<in> set allowed_groups then True
               else supplementary_loop env username allowed_groups))"

fun pam_services_loop :: "auth_env \<Rightarrow> string \<Rightarrow> string \<Rightarrow> string list \<Rightarrow> bool \<times> string" where
  "pam_services_loop env username password [] =
     (False, if pam_reason env \<noteq> [] then pam_reason env else msg_auth_failed)"
| "pam_services_loop env username password (service # rest) =
     (case pam_authenticate env username password service of
        Inl e \<Rightarrow> (False, e)
      | Inr ok \<Rightarrow>
          if ok then (True, msg_auth_ok) else pam_services_loop env username password rest)"

definition auth_pam :: "auth_env \<Rightarrow> string \<Rightarrow> string \<Rightarrow> bool \<times> string" where
  "auth_pam env username password =
     pam_services_loop env username password [''login'', ''system-auth'', ''sshd'', ''su'']"

definition startswith :: "string \<Rightarrow> string \<Rightarrow> bool" where
  "startswith s p = (take (length p) s = p)"

definition auth_shadow :: "auth_env \<Rightarrow> string \<Rightarrow> string \<Rightarrow> bool \<times> string" where
  "auth_shadow env username password =
     (case getspnam env username of
        ShadowKeyError \<Rightarrow> (False, ''Utilisateur non trouv'' @ e_acute)
      | ShadowPermissionError \<Rightarrow> (False, ''Erreur serveur'')
      | ShadowException e \<Rightarrow> (False, e)
      | ShadowEntry stored_hash \<Rightarrow>
          if startswith stored_hash ''!'' \<or> startswith stored_hash ''*''
          then (False, ''Compte d'' @ e_acute @ ''sactiv'' @ e_acute)
          else if shadow_backend env = Some ''crypt'' then
            (case crypt_crypt env password stored_hash of
               Inl e \<Rightarrow> (False, e)
             | Inr computed_hash \<Rightarrow>
                 (case compare_digest computed_hash stored_hash of
                    Inl e \<Rightarrow> (False, e)
                  | Inr same \<Rightarrow>
                      if same then (True, msg_auth_ok) else (False, ''Mot de passe incorrect'')))
          else if shadow_backend env = Some ''passlib'' then
            (case passlib_verify env password stored_hash of
               Inl e \<Rightarrow> (False, e)
             | Inr ok \<Rightarrow>
                 if ok then (True, msg_auth_ok) else (False, ''Mot de passe incorrect''))
          else (False, ''Aucun backend shadow disponible''))"

definition valid_username :: "auth_env \<Rightarrow> string \<Rightarrow> bool" where
  "valid_username env username =
     py_isalnum (isalnum_non_ascii env)
       (py_replace_char CHR ''-'' (py_replace_char CHR ''_'' username))"

definition authenticate :: "auth_env \<Rightarrow> string \<Rightarrow> string \<Rightarrow> bool \<times> string" where
  "authenticate env username password =
     (if username = [] \<or> password = [] then (False, msg_required)
      else if \<not> valid_username env username then (False, msg_invalid_username)
      else if \<not> user_exists env username then (False, msg_auth_failed)
      else if ALLOWED_GROUPS env \<noteq> [] \<and> \<not> user_in_groups env username (ALLOWED_GROUPS env)
      then (False, msg_not_authorized)
      else if pam_available env \<and> fst (auth_pam env username password)
      then (True, snd (auth_pam env username password))
      else if shadow_available env \<and> fst (auth_shadow env username password)
      then (True, snd (auth_shadow env username password))
      else (False, msg_auth_failed))"

subsection \<open>Sessions\<close>

text \<open>
  \<open>time.time()\<close> is read several times in one call; each reading is an argument, in the
  order the source reads them. The token drawn by \<open>secrets.token_urlsafe(32)\<close> is an
  argument too.
\<close>

record session =
  s_username :: string
  s_created :: real
  s_expires :: real
  s_last_access :: real

type_synonym sessions = "string \<rightharpoonup> session"

definition SESSION_TIMEOUT :: real where
  "SESSION_TIMEOUT = 3600"

definition cleanup_sessions :: "real \<Rightarrow> sessions \<Rightarrow> sessions" where
  "cleanup_sessions now S =
     (\<lambda>token. case S token of
                 None \<Rightarrow> None
               | Some s \<Rightarrow> if now > s_expires s then None else Some s)"

definition create_session ::
  "string \<Rightarrow> string \<Rightarrow> real \<Rightarrow> real \<Rightarrow> real \<Rightarrow> real \<Rightarrow> sessions \<Rightarrow> string \<times> sessions" where
  "create_session token username t_created t_expires t_access t_cleanup S =
     (token,
      cleanup_sessions t_cleanup
        (S(token \<mapsto> \<lparr>s_username = username, s_created = t_created,
                      s_expires = t_expires + SESSION_TIMEOUT, s_last_access = t_access\<rparr>)))"

definition validate_session ::
  "string \<Rightarrow> real \<Rightarrow> real \<Rightarrow> real \<Rightarrow> sessions \<Rightarrow> string option \<times> sessions" where
  "validate_session token t_check t_access t_expires S =
     (if token = [] then (None, S)
      else case S token of
        None \<Rightarrow> (None, S)
      | Some s \<Rightarrow>
          if t_check > s_expires s then (None, S(token := None))
          else (Some (s_username s),
                S(token \<mapsto> s\<lparr>s_last_access := t_access,
                              s_expires := t_expires + SESSION_TIMEOUT\<rparr>)))"

definition destroy_session :: "string \<Rightarrow> sessions \<Rightarrow> bool \<times> sessions" where
  "destroy_session token S =
     (case S token of None \<Rightarrow> (False, S) | Some s \<Rightarrow> (True, S(token := None)))"

definition login ::
  "auth_env \<Rightarrow> string \<Rightarrow> string \<Rightarrow> string \<Rightarrow> real \<Rightarrow> real \<Rightarrow> real \<Rightarrow> real \<Rightarrow> sessions
     \<Rightarrow> (bool \<times> string \<times> string option) \<times> sessions" where
  "login env username password token t_created t_expires t_access t_cleanup S =
     (case authenticate env username password of
        (success, message) \<Rightarrow>
          if success
          then (case create_session token username t_created t_expires t_access t_cleanup S of
                  (tok, S') \<Rightarrow> ((True, message, Some tok), S'))
          else ((False, message, None), S))"

subsection \<open>Example hosts\<close>

text \<open>
  A host where user \<open>bob\<close> exists with primary group \<open>users\<close>, only group \<open>sudo\<close> (whose one
  member is \<open>alice\<close>) is allowed, and no password is ever accepted; of the names outside ASCII
  its interpreter is asked only about \<open>rene\<close>, which is made of letters. And a session table
  with one session that expires at time 3600.
\<close>

definition pam_rejects :: "string \<Rightarrow> string \<Rightarrow> string \<Rightarrow> string + bool" where
  "pam_rejects username password service = Inr False"

definition pam_accepts :: "string \<Rightarrow> string \<Rightarrow> string \<Rightarrow> string + bool" where
  "pam_accepts username password service = Inr True"

definition no_shadow :: "string \<Rightarrow> spwd_result" where
  "no_shadow username = ShadowPermissionError"

definition crypt_fails :: "string \<Rightarrow> string \<Rightarrow> string + string" where
  "crypt_fails password salt = Inl ''crypt failed''"

definition passlib_rejects :: "string \<Rightarrow> string \<Rightarrow> string + bool" where
  "passlib_rejects password stored_hash = Inr False"

definition rene :: string where
  "rene = ''ren'' @ e_acute"

definition letters_rene :: "string \<Rightarrow> bool" where
  "letters_rene s = (s = rene)"

definition sudo_only_host :: auth_env where
  "sudo_only_host =
     \<lparr>pam_available = True, shadow_available = False, shadow_backend = None,
      ALLOWED_GROUPS = [''sudo''],
      passwd = [''bob'' \<mapsto> 1000, ''alice'' \<mapsto> 1001],
      group_by_gid = [1000 \<mapsto> ''users'', 1001 \<mapsto> ''alice''],
      group_members = [''sudo'' \<mapsto> [''alice'']],
      pam_authenticate = pam_rejects, pam_reason = [],
      getspnam = no_shadow, crypt_crypt = crypt_fails, passlib_verify = passlib_rejects,
      isalnum_non_ascii = letters_rene\<rparr>"

definition open_host :: auth_env where
  "open_host = sudo_only_host\<lparr>ALLOWED_GROUPS := [], pam_authenticate := pam_accepts\<rparr>"

definition one_session :: sessions where
  "one_session =
     [''tok'' \<mapsto> \<lparr>s_username = ''bob'', s_created = 0, s_expires = 3600, s_last_access = 0\<rparr>]"

section \<open>lib/security.py: request signing\<close>

text \<open>
  \<open>json.dumps\<close> and HMAC-SHA256 are Python's: \<open>json_dumps\<close> gives the canonical text of a
  payload (sorted keys, compact separators) or the text of the \<open>TypeError\<close> it raises, and
  \<open>hmac_sha256 key message\<close> the 32 digest bytes. \<open>hexdigest\<close> writes the bytes in lower-case
  hexadecimal.
\<close>

record 'p signer_lib =
  json_dumps :: "'p \<Rightarrow> string + string"
  hmac_sha256 :: "string \<Rightarrow> string \<Rightarrow> 8 word list"
  lib_runtime :: py_runtime

definition hex_digit :: "nat \<Rightarrow> char" where
  "hex_digit d =
     (if d < 10 then digit_char d
      else if d = 10 then CHR ''a'' else if d = 11 then CHR ''b'' else if d = 12 then CHR ''c''
      else if d = 13 then CHR ''d'' else if d = 14 then CHR ''e'' else CHR ''f'')"

definition hex_byte :: "8 word \<Rightarrow> string" where
  "hex_byte b = [hex_digit (unat b div 16), hex_digit (unat b mod 16)]"

definition hexdigest :: "8 word list \<Rightarrow> string" where
  "hexdigest bs = concat (map hex_byte bs)"

text \<open>\<open>int(x)\<close> of a float truncates towards zero.\<close>

definition int_of_float :: "real \<Rightarrow> int" where
  "int_of_float r = (if r \<ge> 0 then \<lfloor>r\<rfloor> else \<lceil>r\<rceil>)"

definition generate_timestamp :: "py_runtime \<Rightarrow> real \<Rightarrow> exn + string" where
  "generate_timestamp rt time_time = py_str rt (int_of_float time_time)"

record sig_headers =
  X_Signature :: string
  X_Timestamp :: string
  X_Nonce :: string

text \<open>
  \<open>urandom_hex\<close> is the value \<open>generate_nonce()\<close> would draw and \<open>time_time\<close> the clock
  reading \<open>generate_timestamp()\<close> would take; both are used only when the argument is
  \<open>None\<close>.
\<close>

definition sign_request ::
  "'p signer_lib \<Rightarrow> string \<Rightarrow> real \<Rightarrow> 'p \<Rightarrow> string \<Rightarrow> string option \<Rightarrow> string option
     \<Rightarrow> exn + sig_headers" where
  "sign_request lib urandom_hex time_time payload secret_key nonce timestamp =
     (let nonce' = (case nonce of None \<Rightarrow> urandom_hex | Some n \<Rightarrow> n)
      in case (case timestamp of
                 None \<Rightarrow> generate_timestamp (lib_runtime lib) time_time
               | Some t \<Rightarrow> Inr t) of
           Inl e \<Rightarrow> Inl e
         | Inr timestamp' \<Rightarrow>
             (case json_dumps lib payload of
                Inl e \<Rightarrow> Inl (TypeError e)
              | Inr payload_json \<Rightarrow>
                  (let message = timestamp' @ ''.'' @ nonce' @ ''.'' @ payload_json;
                       signature = hexdigest (hmac_sha256 lib secret_key message)
                   in Inr \<lparr>X_Signature = signature, X_Timestamp = timestamp',
                           X_Nonce = nonce'\<rparr>)))"

definition verify_signature ::
  "'p signer_lib \<Rightarrow> real \<Rightarrow> 'p \<Rightarrow> string \<Rightarrow> string \<Rightarrow> string \<Rightarrow> string \<Rightarrow> int \<Rightarrow> exn + bool" where
  "verify_signature lib time_time payload signature timestamp nonce secret_key max_age =
     (case py_int (lib_runtime lib) timestamp of
        None \<Rightarrow> Inr False
      | Some request_time \<Rightarrow>
          (let current_time = int_of_float time_time
           in if \<bar>current_time - request_time\<bar> > max_age then Inr False
              else
                (case json_dumps lib payload of
                   Inl e \<Rightarrow> Inl (TypeError e)
                 | Inr payload_json \<Rightarrow>
                     (let message = timestamp @ ''.'' @ nonce @ ''.'' @ payload_json;
                          expected_signature = hexdigest (hmac_sha256 lib secret_key message)
                      in case compare_digest signature expected_signature of
                           Inl e \<Rightarrow> Inl (TypeError e)
                         | Inr same \<Rightarrow> Inr same))))"

subsection \<open>An example library\<close>

text \<open>
  For payloads that are lists of key-value pairs of strings; the digest function is a stand-in
  that only serves to run the definitions on an input.
\<close>

definition toy_dumps :: "(string \<times> string) list \<Rightarrow> string + string" where
  "toy_dumps kvs = Inr (concat (map (\<lambda>(k, v). k @ '':'' @ v @ '','') kvs))"

definition toy_hmac :: "string \<Rightarrow> string \<Rightarrow> 8 word list" where
  "toy_hmac key message = map of_char (key @ message)"

definition toy_lib :: "(string \<times> string) list signer_lib" where
  "toy_lib =
     \<lparr>json_dumps = toy_dumps, hmac_sha256 = toy_hmac, lib_runtime = default_runtime\<rparr>"

definition toy_headers :: sig_headers where
  "toy_headers =
     \<lparr>X_Signature = hexdigest (toy_hmac ''k'' ''1000.n0.a:1,''), X_Timestamp = ''1000'',
      X_Nonce = ''n0''\<rparr>"

text \<open>
  Headers signed with a timestamp \<open>int\<close> does not read: the digits \<open>1000\<close> after the unit
  separator \<open>0x1F\<close>, which \<open>str.strip\<close> would remove and \<open>int\<close> does not skip.
\<close>

definition separator_1000 :: string where
  "separator_1000 = CHR 0x1F # ''1000''"

section \<open>lib/updater.py: self-update\<close>

text \<open>
  The file system is a map from absolute paths (lists of components) to nodes; a directory's
  content is whatever lies under its path. \<open>fs_ops\<close> records, in order, every operation
  \<open>update_agent\<close> performs on it. A library call is taken to succeed unless the source itself
  raises or handles its failure: here \<open>api_get\<close> may raise (\<open>RuntimeError\<close> in lib/api.py) and
  the archive may fail to open or extract. The extraction oracle lists the members of the
  archive by name, in order. \<open>extractall\<close> is called without a filter and without a look
  at the names: a member lands where its name leads from the target directory, \<open>..\<close>
  components and absolute names included, and missing parent directories are created.
  Links in the archive are not modelled.
\<close>

type_synonym path = "string list"

datatype node = Dir | File string

type_synonym filesystem = "path \<rightharpoonup> node"

datatype fs_op =
    Mkdtemp path
  | WriteFile path
  | Mkdir path
  | ExtractAll path path
  | Rmtree path
  | Rename path path
  | PipInstall path

record updater_world =
  fs :: filesystem
  fs_ops :: "fs_op list"

datatype member_name = Relative path | Absolute path

record updater_env =
  APP_DIR :: path
  api_get :: "exn + string"
  mkdtemp_name :: string
  tar_extract :: "string \<Rightarrow> exn + (member_name \<times> node) list"

definition under :: "path \<Rightarrow> path \<Rightarrow> bool" where
  "under d p = (take (length d) p = d)"

definition path_exists :: "filesystem \<Rightarrow> path \<Rightarrow> bool" where
  "path_exists f p = (f p \<noteq> None)"

definition rmtree :: "path \<Rightarrow> updater_world \<Rightarrow> updater_world" where
  "rmtree d w =
     w\<lparr>fs := (\<lambda>p. if under d p then None else fs w p), fs_ops := fs_ops w @ [Rmtree d]\<rparr>"

definition rename :: "path \<Rightarrow> path \<Rightarrow> updater_world \<Rightarrow> updater_world" where
  "rename src dst w =
     w\<lparr>fs := (\<lambda>p. if under dst p then fs w (src @ drop (length dst) p)
                    else if under src p then None else fs w p),
       fs_ops := fs_ops w @ [Rename src dst]\<rparr>"

definition mkdtemp :: "path \<Rightarrow> updater_world \<Rightarrow> updater_world" where
  "mkdtemp d w = w\<lparr>fs := (fs w)(d \<mapsto> Dir), fs_ops := fs_ops w @ [Mkdtemp d]\<rparr>"

definition write_file :: "path \<Rightarrow> string \<Rightarrow> updater_world \<Rightarrow> updater_world" where
  "write_file p content w =
     w\<lparr>fs := (fs w)(p \<mapsto> File content), fs_ops := fs_ops w @ [WriteFile p]\<rparr>"

definition mkdir :: "path \<Rightarrow> updater_world \<Rightarrow> updater_world" where
  "mkdir d w =
     w\<lparr>fs := (if path_exists (fs w) d then fs w else (fs w)(d \<mapsto> Dir)),
       fs_ops := fs_ops w @ [Mkdir d]\<rparr>"

text \<open>\<open>os.path.normpath\<close> on the components of an absolute path.\<close>

definition normpath :: "path \<Rightarrow> path" where
  "normpath p =
     fold (\<lambda>c acc. if c = ''..'' then butlast acc
                   else if c = ''.'' \<or> c = [] then acc
                   else acc @ [c]) p []"

definition landing :: "path \<Rightarrow> member_name \<Rightarrow> path" where
  "landing target name =
     (case name of Relative q \<Rightarrow> normpath (target @ q) | Absolute q \<Rightarrow> normpath q)"

definition ensure_parents :: "path \<Rightarrow> filesystem \<Rightarrow> filesystem" where
  "ensure_parents p f =
     fold (\<lambda>n g. if g (take n p) = None then g(take n p \<mapsto> Dir) else g) [1..<length p] f"

definition put_member :: "path \<Rightarrow> node \<Rightarrow> filesystem \<Rightarrow> filesystem" where
  "put_member p n f = (ensure_parents p f)(p \<mapsto> n)"

definition extractall ::
  "path \<Rightarrow> path \<Rightarrow> (member_name \<times> node) list \<Rightarrow> updater_world \<Rightarrow> updater_world" where
  "extractall archive target members w =
     w\<lparr>fs := fold (\<lambda>m f. put_member (landing target (fst m)) (snd m) f) members (fs w),
       fs_ops := fs_ops w @ [ExtractAll archive target]\<rparr>"

definition backup_path :: "path \<Rightarrow> path" where
  "backup_path d = (case d of [] \<Rightarrow> [''.bak''] | _ \<Rightarrow> butlast d @ [last d @ ''.bak''])"

definition pip_install :: "path \<Rightarrow> updater_world \<Rightarrow> updater_world" where
  "pip_install current_dir w =
     (let venv_pip = [''opt'', ''agentautoupdate'', ''venv'', ''bin'', ''pip''];
          requirements = current_dir @ [''requirements.txt'']
      in if path_exists (fs w) venv_pip \<and> path_exists (fs w) requirements
         then w\<lparr>fs_ops := fs_ops w @ [PipInstall requirements]\<rparr>
         else w)"

definition swap_directories :: "path \<Rightarrow> path \<Rightarrow> updater_world \<Rightarrow> updater_world" where
  "swap_directories current_dir new_app_dir w =
     (let backup_dir = backup_path current_dir;
          w1 = (if path_exists (fs w) backup_dir then rmtree backup_dir w else w);
          w2 = (if path_exists (fs w1) current_dir then rename current_dir backup_dir w1 else w1);
          w3 = rename new_app_dir current_dir w2
      in if path_exists (fs w3) backup_dir then rmtree backup_dir w3 else w3)"

definition temp_dir_path :: "updater_env \<Rightarrow> path" where
  "temp_dir_path env = [''opt'', ''agentautoupdate'', ''agentautoupdate-'' @ mkdtemp_name env]"

definition update_agent :: "updater_env \<Rightarrow> updater_world \<Rightarrow> (exn + string) \<times> updater_world" where
  "update_agent env w =
     (case api_get env of
        Inl e \<Rightarrow> (Inl e, w)
      | Inr bundle \<Rightarrow>
          (let temp_dir = temp_dir_path env;
               w1 = mkdtemp temp_dir w;
               bundle_path = temp_dir @ [''latest.tar.gz''];
               w2 = write_file bundle_path bundle w1;
               new_app_dir = temp_dir @ [''app''];
               w3 = mkdir new_app_dir w2
           in case tar_extract env bundle of
                Inl e \<Rightarrow> (Inl e, w3)
              | Inr members \<Rightarrow>
                  (let w4 = extractall bundle_path new_app_dir members w3;
                       version_path = new_app_dir @ [''VERSION'']
                   in case fs w4 version_path of
                        None \<Rightarrow> (Inl (UpdateError ''Bundle missing VERSION file''), w4)
                      | Some Dir \<Rightarrow> (Inl (OSError ''Is a directory''), w4)
                      | Some (File text) \<Rightarrow>
                          (let new_version = py_strip text;
                               w5 = swap_directories (APP_DIR env) new_app_dir w4;
                               w6 = pip_install (APP_DIR env) w5;
                               w7 = rmtree temp_dir w6
                           in (Inr new_version, w7)))))"

subsection \<open>Reading the operations\<close>


subsection \<open>An example installation\<close>

text \<open>
  The agent installed under \<open>/opt/agentautoupdate/app\<close> at version 1.0.0, and three bundles:
  one with a \<open>VERSION\<close> file, one without, and one without whose only member is named
  \<open>../../app/agent_poller.py\<close>.
\<close>

definition installed_fs :: filesystem where
  "installed_fs =
     [[''opt''] \<mapsto> Dir,
      [''opt'', ''agentautoupdate''] \<mapsto> Dir,
      [''opt'', ''agentautoupdate'', ''app''] \<mapsto> Dir,
      [''opt'', ''agentautoupdate'', ''app'', ''VERSION''] \<mapsto> File ''1.0.0'',
      [''opt'', ''agentautoupdate'', ''app'', ''agent_poller.py''] \<mapsto> File ''old code'']"

definition installed_world :: updater_world where
  "installed_world = \<lparr>fs = installed_fs, fs_ops = []\<rparr>"

definition untar_example :: "string \<Rightarrow> exn + (member_name \<times> node) list" where
  "untar_example bundle =
     (if bundle = ''good''
      then Inr [(Relative [''VERSION''], File ''1.1.0''),
                (Relative [''agent_poller.py''], File ''new code'')]
      else if bundle = ''no-version''
      then Inr [(Relative [''agent_poller.py''], File ''new code'')]
      else if bundle = ''climbing''
      then Inr [(Relative [''..'', ''..'', ''app'', ''agent_poller.py''], File ''other code'')]
      else Inl (OSError ''not a gzip file''))"

definition env_no_version :: updater_env where
  "env_no_version =
     \<lparr>APP_DIR = [''opt'', ''agentautoupdate'', ''app''], api_get = Inr ''no-version'',
      mkdtemp_name = ''x1'', tar_extract = untar_example\<rparr>"

definition env_climbing :: updater_env where
  "env_climbing = env_no_version\<lparr>api_get := Inr ''climbing''\<rparr>"

definition env_good :: updater_env where
  "env_good = env_no_version\<lparr>api_get := Inr ''good''\<rparr>"

section \<open>JSON values and dictionaries\<close>

text \<open>
  The values a decoded JSON document holds. A float is a real number or one of the three
  special values Python's decoder accepts. A dictionary is an association list with unique
  keys, in insertion order.
\<close>

datatype pyfloat = Finite real | NaN | PosInf | NegInf

datatype json =
    JNull
  | JBool bool
  | JInt int
  | JFloat pyfloat
  | JStr string
  | JList "json list"
  | JDict "(string \<times> json) list"

type_synonym dict = "(string \<times> json) list"

definition dict_get :: "dict \<Rightarrow> string \<Rightarrow> json" where
  "dict_get d k = (case map_of d k of None \<Rightarrow> JNull | Some v \<Rightarrow> v)"

definition dict_set :: "string \<Rightarrow> json \<Rightarrow> dict \<Rightarrow> dict" where
  "dict_set k v d = AList.update k v d"

definition dict_update :: "dict \<Rightarrow> dict \<Rightarrow> dict" where
  "dict_update d e = fold (\<lambda>kv acc. dict_set (fst kv) (snd kv) acc) e d"

definition py_truthy :: "json \<Rightarrow> bool" where
  "py_truthy v =
     (case v of
        JNull \<Rightarrow> False
      | JBool b \<Rightarrow> b
      | JInt n \<Rightarrow> n \<noteq> 0
      | JFloat f \<Rightarrow> (case f of Finite r \<Rightarrow> r \<noteq> 0 | _ \<Rightarrow> True)
      | JStr s \<Rightarrow> s \<noteq> []
      | JList l \<Rightarrow> l \<noteq> []
      | JDict d \<Rightarrow> d \<noteq> [])"

text \<open>\<open>int(v)\<close>: the integer, or the exception raised.\<close>

definition py_int_of :: "py_runtime \<Rightarrow> json \<Rightarrow> exn + int" where
  "py_int_of rt v =
     (case v of
        JNull \<Rightarrow> Inl (TypeError ''int() argument must be a string or a number'')
      | JBool b \<Rightarrow> Inr (if b then 1 else 0)
      | JInt n \<Rightarrow> Inr n
      | JFloat f \<Rightarrow>
          (case f of
             Finite r \<Rightarrow> Inr (int_of_float r)
           | NaN \<Rightarrow> Inl (ValueError ''cannot convert float NaN to integer'')
           | _ \<Rightarrow> Inl (OverflowError ''cannot convert float infinity to integer''))
      | JStr s \<Rightarrow>
          (case py_int rt s of
             None \<Rightarrow> Inl (ValueError ''invalid literal for int() with base 10'')
           | Some n \<Rightarrow> Inr n)
      | _ \<Rightarrow> Inl (TypeError ''int() argument must be a string or a number''))"

definition exn_str :: "exn \<Rightarrow> string" where
  "exn_str e =
     (case e of
        ValueError m \<Rightarrow> m | TypeError m \<Rightarrow> m | AttributeError m \<Rightarrow> m | OverflowError m \<Rightarrow> m
      | OSError m \<Rightarrow> m | RuntimeError m \<Rightarrow> m | UpdateError m \<Rightarrow> m)"

fun py_join :: "string \<Rightarrow> string list \<Rightarrow> string" where
  "py_join sep [] = []"
| "py_join sep [x] = x"
| "py_join sep (x # y # ys) = x @ sep @ py_join sep (y # ys)"

section \<open>agent_runner.py and lib/util.py: the package-update cycle\<close>

text \<open>
  The lock is \<open>flock\<close> on the lock file. Where the \<open>fcntl\<close> module is missing there is no lock
  at all (\<open>NoFcntl\<close>); otherwise the lock is free or held (\<open>Flock held\<close>). The outcome of a
  package-manager command (its return code and output, or the exception \<open>subprocess\<close> raises)
  is an oracle; \<open>pkg_ran\<close> records the commands started, each with the state of the lock at
  the moment it is started. The state file reads as \<open>None\<close> when it is absent or not valid
  JSON. The clock readings and formatted times are arguments.
\<close>

datatype lock_facility = NoFcntl | Flock bool

record runner_world =
  locking :: lock_facility
  state_json :: "dict option"
  log_file :: "string list"
  pkg_ran :: "(lock_facility \<times> cmd) list"

record runner_env =
  has_apt_get :: bool
  has_dnf :: bool
  has_yum :: bool
  pkg_outcome :: "cmd list \<Rightarrow> cmd \<Rightarrow> exn + int \<times> string"
  start_time :: real
  end_time :: real
  start_human :: string
  end_human :: string
  utc_now :: string
  log_path_str :: string

record update_result =
  r_status :: string
  r_exit_code :: int
  r_duration :: int
  r_log_path :: "string option"
  r_message :: "string option"

definition detect_package_manager :: "runner_env \<Rightarrow> string" where
  "detect_package_manager env =
     (if has_apt_get env then ''apt''
      else if has_dnf env then ''dnf''
      else if has_yum env then ''yum''
      else ''unknown'')"

definition get_update_commands :: "runner_env \<Rightarrow> cmd list" where
  "get_update_commands env =
     (let manager = detect_package_manager env
      in if manager = ''apt''
         then [[''apt-get'', ''update''],
               [''apt-get'', ''full-upgrade'', ''-y''],
               [''apt-get'', ''autoremove'', ''-y''],
               [''apt-get'', ''autoclean'', ''-y'']]
         else if manager = ''dnf'' \<or> manager = ''yum''
         then (let c = (if manager = ''dnf'' then ''dnf'' else ''yum'')
               in [[c, ''-y'', ''makecache''],
                   [c, ''-y'', ''upgrade''],
                   [c, ''-y'', ''autoremove''],
                   [c, ''-y'', ''clean'', ''all'']])
         else [])"

text \<open>\<open>acquire_lock\<close> returns whether it got a descriptor (\<open>False\<close> for Python's \<open>None\<close>).\<close>

definition acquire_lock :: "runner_world \<Rightarrow> bool \<times> runner_world" where
  "acquire_lock w =
     (case locking w of
        NoFcntl \<Rightarrow> (True, w)
      | Flock held \<Rightarrow> if held then (False, w) else (True, w\<lparr>locking := Flock True\<rparr>))"

definition release_lock :: "runner_world \<Rightarrow> runner_world" where
  "release_lock w = (case locking w of NoFcntl \<Rightarrow> w | Flock held \<Rightarrow> w\<lparr>locking := Flock False\<rparr>)"

definition util_run_command :: "runner_env \<Rightarrow> cmd \<Rightarrow> runner_world \<Rightarrow> (exn + int) \<times> runner_world" where
  "util_run_command env command w =
     (let header = [CHR 0x0A] @ ''$ '' @ py_join '' '' command @ [CHR 0x0A];
          w1 = w\<lparr>log_file := log_file w @ [header],
                 pkg_ran := pkg_ran w @ [(locking w, command)]\<rparr>
      in case pkg_outcome env (map snd (pkg_ran w)) command of
           Inl e \<Rightarrow> (Inl e, w1)
         | Inr (returncode, output) \<Rightarrow>
             (Inr returncode, w1\<lparr>log_file := log_file w1 @ [output]\<rparr>))"

text \<open>
  The loop over the commands: it gives the exception that escaped (if any), the status and the
  exit code as they stand when the loop is left.
\<close>

fun run_commands ::
  "runner_env \<Rightarrow> cmd list \<Rightarrow> runner_world \<Rightarrow> (exn option \<times> string \<times> int) \<times> runner_world" where
  "run_commands env [] w = ((None, ''OK'', 0), w)"
| "run_commands env (command # rest) w =
     (case util_run_command env command w of
        (Inl e, w1) \<Rightarrow> ((Some e, ''OK'', 0), w1)
      | (Inr code, w1) \<Rightarrow>
          if code \<noteq> 0 then ((None, ''ERROR'', code), w1) else run_commands env rest w1)"

definition read_state :: "runner_world \<Rightarrow> dict" where
  "read_state w = (case state_json w of None \<Rightarrow> [] | Some d \<Rightarrow> d)"

definition write_state :: "dict \<Rightarrow> runner_world \<Rightarrow> runner_world" where
  "write_state state w = w\<lparr>state_json := Some state\<rparr>"

definition run_update :: "runner_env \<Rightarrow> runner_world \<Rightarrow> (exn + update_result) \<times> runner_world" where
  "run_update env w =
     (case acquire_lock w of
        (False, w0) \<Rightarrow>
          (Inr \<lparr>r_status = ''ERROR'', r_exit_code = 1, r_duration = 0, r_log_path = None,
                r_message = Some ''Update already running''\<rparr>, w0)
      | (True, w0) \<Rightarrow>
          (let w1 = w0\<lparr>log_file := log_file w0
                         @ [[CHR 0x0A] @ ''START: '' @ start_human env @ [CHR 0x0A]]\<rparr>;
               commands = get_update_commands env;
               ((raised, status, exit_code), w2) =
                 (if commands = [] then ((None, ''ERROR'', 2), w1)
                  else run_commands env commands w1);
               error_message = (if commands = [] then Some ''Unsupported package manager'' else None);
               duration = int_of_float (end_time env - start_time env);
               now = utc_now env;
               w3 = w2\<lparr>log_file := log_file w2
                         @ [''END: '' @ end_human env @ '' | status='' @ status @ '' | exit=''
                            @ str_int exit_code @ '' | duration='' @ str_int duration @ ''s''
                            @ [CHR 0x0A]]\<rparr>;
               state = dict_update (read_state w3)
                         [(''lastRunAt'', JStr now), (''lastStatus'', JStr status),
                          (''lastExitCode'', JInt exit_code),
                          (''lastDurationSeconds'', JInt duration)];
               state' = (if status = ''OK'' then dict_set ''lastUpdate'' (JStr now) state else state);
               w4 = release_lock (write_state state' w3)
           in case raised of
                Some e \<Rightarrow> (Inl e, w4)
              | None \<Rightarrow>
                  (Inr \<lparr>r_status = status, r_exit_code = exit_code, r_duration = duration,
                        r_log_path = Some (log_path_str env), r_message = error_message\<rparr>, w4)))"

subsection \<open>The steps of a cycle, and several callers\<close>

text \<open>
  \<open>run_update\<close> cut at the points where it acts on the host: \<open>cycle_start\<close> is the call of
  \<open>acquire_lock\<close> with the early return or the \<open>START\<close> line, each command of the loop is
  one step, and \<open>cycle_finish\<close> is the \<open>finally\<close> block with the \<open>return\<close>. A caller is idle,
  in the loop with the commands still to run, past the loop with what the loop left
  (exception, status, exit code), or has returned.
\<close>

definition refusal :: update_result where
  "refusal =
     \<lparr>r_status = ''ERROR'', r_exit_code = 1, r_duration = 0, r_log_path = None,
      r_message = Some ''Update already running''\<rparr>"

definition cycle_start :: "runner_env \<Rightarrow> runner_world \<Rightarrow> bool \<times> runner_world" where
  "cycle_start env w =
     (case acquire_lock w of
        (False, w0) \<Rightarrow> (False, w0)
      | (True, w0) \<Rightarrow>
          (True, w0\<lparr>log_file := log_file w0
                       @ [[CHR 0x0A] @ ''START: '' @ start_human env @ [CHR 0x0A]]\<rparr>))"

definition cycle_finish ::
  "runner_env \<Rightarrow> exn option \<times> string \<times> int \<Rightarrow> runner_world
     \<Rightarrow> (exn + update_result) \<times> runner_world" where
  "cycle_finish env outcome w2 =
     (case outcome of (raised, status, exit_code) \<Rightarrow>
        (let error_message =
               (if get_update_commands env = [] then Some ''Unsupported package manager''
                else None);
             duration = int_of_float (end_time env - start_time env);
             now = utc_now env;
             w3 = w2\<lparr>log_file := log_file w2
                       @ [''END: '' @ end_human env @ '' | status='' @ status @ '' | exit=''
                          @ str_int exit_code @ '' | duration='' @ str_int duration @ ''s''
                          @ [CHR 0x0A]]\<rparr>;
             state = dict_update (read_state w3)
                       [(''lastRunAt'', JStr now), (''lastStatus'', JStr status),
                        (''lastExitCode'', JInt exit_code),
                        (''lastDurationSeconds'', JInt duration)];
             state' = (if status = ''OK'' then dict_set ''lastUpdate'' (JStr now) state else state);
             w4 = release_lock (write_state state' w3)
         in case raised of
              Some e \<Rightarrow> (Inl e, w4)
            | None \<Rightarrow>
                (Inr \<lparr>r_status = status, r_exit_code = exit_code, r_duration = duration,
                      r_log_path = Some (log_path_str env), r_message = error_message\<rparr>, w4)))"

datatype caller =
    Idle
  | InLoop "cmd list"
  | PastLoop "exn option \<times> string \<times> int"
  | Returned "exn + update_result"

inductive caller_step ::
  "runner_env \<Rightarrow> runner_world \<times> caller \<Rightarrow> runner_world \<times> caller \<Rightarrow> bool" where
  refused: "cycle_start env w = (False, w0)
              \<Longrightarrow> caller_step env (w, Idle) (w0, Returned (Inr refusal))"
| started: "cycle_start env w = (True, w1) \<Longrightarrow> get_update_commands env \<noteq> []
              \<Longrightarrow> caller_step env (w, Idle) (w1, InLoop (get_update_commands env))"
| unsupported: "cycle_start env w = (True, w1) \<Longrightarrow> get_update_commands env = []
              \<Longrightarrow> caller_step env (w, Idle) (w1, PastLoop (None, ''ERROR'', 2))"
| raised: "util_run_command env command w = (Inl e, w1)
              \<Longrightarrow> caller_step env (w, InLoop (command # rest)) (w1, PastLoop (Some e, ''OK'', 0))"
| failed: "util_run_command env command w = (Inr code, w1) \<Longrightarrow> code \<noteq> 0
              \<Longrightarrow> caller_step env (w, InLoop (command # rest)) (w1, PastLoop (None, ''ERROR'', code))"
| passed: "util_run_command env command w = (Inr 0, w1)
              \<Longrightarrow> caller_step env (w, InLoop (command # rest)) (w1, InLoop rest)"
| exhausted: "caller_step env (w, InLoop []) (w, PastLoop (None, ''OK'', 0))"
| finished: "cycle_finish env outcome w = (result, w')
              \<Longrightarrow> caller_step env (w, PastLoop outcome) (w', Returned result)"

text \<open>Several callers on one host: at each step one of them takes its next step.\<close>

inductive host_step ::
  "runner_env \<Rightarrow> runner_world \<times> caller list \<Rightarrow> runner_world \<times> caller list \<Rightarrow> bool" where
  "i < length cs \<Longrightarrow> caller_step env (w, cs ! i) (w', c')
     \<Longrightarrow> host_step env (w, cs) (w', cs[i := c'])"

definition in_cycle :: "caller \<Rightarrow> bool" where
  "in_cycle c = (case c of InLoop rest \<Rightarrow> True | PastLoop outcome \<Rightarrow> True | _ \<Rightarrow> False)"

definition cycles_running :: "caller list \<Rightarrow> nat" where
  "cycles_running cs = length (filter in_cycle cs)"

definition started_since :: "runner_world \<Rightarrow> runner_world \<Rightarrow> (lock_facility \<times> cmd) list" where
  "started_since w w' = drop (length (pkg_ran w)) (pkg_ran w')"

text \<open>
  What holds of a host and its callers, \<open>w0\<close> being the host before the first step: the
  locking facility is there, a free lock means that no caller is in a cycle, at most one
  caller is, and every command started since \<open>w0\<close> was started with the lock held.
\<close>

definition one_cycle :: "runner_world \<Rightarrow> runner_world \<times> caller list \<Rightarrow> bool" where
  "one_cycle w0 s =
     (case s of (w, cs) \<Rightarrow>
        locking w \<noteq> NoFcntl
      \<and> (locking w = Flock False \<longrightarrow> cycles_running cs = 0)
      \<and> cycles_running cs \<le> 1
      \<and> length (pkg_ran w0) \<le> length (pkg_ran w)
      \<and> (\<forall>e \<in> set (started_since w0 w). fst e = Flock True))"

subsection \<open>An example host\<close>

definition apt_ok :: "cmd list \<Rightarrow> cmd \<Rightarrow> exn + int \<times> string" where
  "apt_ok history command = Inr (0, ''done'')"

definition apt_env :: runner_env where
  "apt_env =
     \<lparr>has_apt_get = True, has_dnf = False, has_yum = False, pkg_outcome = apt_ok,
      start_time = 100, end_time = 321 / 2, start_human = ''2024-01-01 03:00:00'',
      end_human = ''2024-01-01 03:01:00'', utc_now = ''2024-01-01T02:01:00Z'',
      log_path_str = ''/opt/agentautoupdate/logs/agent-2024-01-01.log''\<rparr>"

definition busy_host :: runner_world where
  "busy_host =
     \<lparr>locking = Flock True, state_json = Some [(''lastStatus'', JStr ''OK'')],
      log_file = [], pkg_ran = []\<rparr>"

definition idle_host :: runner_world where
  "idle_host = busy_host\<lparr>locking := Flock False\<rparr>"

text \<open>The idle host once a caller has taken the lock, and once its first command has run.\<close>

definition started_host :: runner_world where
  "started_host = snd (cycle_start apt_env idle_host)"

definition updating_host :: runner_world where
  "updating_host = snd (util_run_command apt_env [''apt-get'', ''update''] started_host)"
section \<open>agent_poller.py: command dispatch\<close>

text \<open>
  \<open>handle_command\<close> works on the configuration dictionary it is handed (and mutates), on the
  configuration file, on the installation (for \<open>UPDATE_AGENT\<close>), on the update cycle's host
  (for \<open>RUN_NOW\<close>) and on the service supervisor, whose operations are recorded in
  \<open>services\<close>. Log listing, log reading and system information are oracles. \<open>py_repr\<close> is
  Python's text for the values whose formatting is not written out here (floats, lists,
  dictionaries).
\<close>

datatype service_op = SetSchedule bool json | UninstallScheduled

record agent_world =
  config_file :: "dict option"
  config_writable :: bool
  install :: updater_world
  runner :: runner_world
  services :: "service_op list"

record agent_env =
  updater :: updater_env
  cycle :: runner_env
  list_logs :: "json list"
  read_log :: "string \<Rightarrow> exn + dict"
  collect_system_info :: "exn + dict"
  py_repr :: "json \<Rightarrow> string"
  agent_runtime :: py_runtime

subsection \<open>lib/config.py: \<open>save_config\<close>\<close>

definition save_config :: "dict \<Rightarrow> agent_world \<Rightarrow> exn + agent_world" where
  "save_config data w =
     (let s = dict_get data ''schedule'';
          schedule = (if py_truthy s then s else JDict [])
      in case schedule of
           JDict sd \<Rightarrow>
             (let payload =
                    dict_set ''schedule''
                      (JDict [(''enabled'',
                               JBool (py_truthy (case map_of sd ''enabled'' of
                                                   None \<Rightarrow> JBool False | Some v \<Rightarrow> v))),
                              (''dailyTime'',
                               (case map_of sd ''dailyTime'' of
                                  None \<Rightarrow> JStr ''03:00'' | Some v \<Rightarrow> v))])
                      data
              in if config_writable w then Inr (w\<lparr>config_file := Some payload\<rparr>)
                 else Inl (OSError ''Permission denied''))
         | _ \<Rightarrow> Inl (AttributeError ''object has no attribute get''))"

subsection \<open>\<open>handle_command\<close>\<close>

text \<open>\<open>command.get("payload") or {}\<close>, as the dictionary later read with \<open>.get\<close>.\<close>

definition command_payload :: "dict \<Rightarrow> exn + dict" where
  "command_payload command =
     (let p = dict_get command ''payload''
      in if py_truthy p
         then (case p of
                 JDict d \<Rightarrow> Inr d
               | _ \<Rightarrow> Inl (AttributeError ''object has no attribute get''))
         else Inr [])"

definition py_format :: "agent_env \<Rightarrow> json \<Rightarrow> string" where
  "py_format env v =
     (case v of
        JNull \<Rightarrow> ''None''
      | JBool b \<Rightarrow> (if b then ''True'' else ''False'')
      | JInt n \<Rightarrow> str_int n
      | JStr s \<Rightarrow> s
      | _ \<Rightarrow> py_repr env v)"

text \<open>\<open>int(payload.get("pollIntervalSeconds") or 0)\<close>\<close>

definition poll_value_of :: "py_runtime \<Rightarrow> dict \<Rightarrow> exn + int" where
  "poll_value_of rt payload =
     (let p = dict_get payload ''pollIntervalSeconds''
      in py_int_of rt (if py_truthy p then p else JInt 0))"

text \<open>
  \<open>save_config\<close> raises only on a schedule entry that is neither a dictionary nor falsy, or
  when the file cannot be written.
\<close>

definition schedule_well_formed :: "dict \<Rightarrow> bool" where
  "schedule_well_formed config =
     (case dict_get config ''schedule'' of JDict sd \<Rightarrow> True | v \<Rightarrow> \<not> py_truthy v)"

type_synonym command_result = "string \<times> dict \<times> string option \<times> bool \<times> bool"

text \<open>
  The body of the \<open>try\<close>: \<open>Inl\<close> is an exception raised inside it, \<open>Inr\<close> the values of
  \<open>status\<close>, \<open>result_payload\<close>, \<open>error_message\<close>, \<open>restart\<close> and \<open>exit_after\<close> when it
  completes. The configuration dictionary and the world are returned as the body left them.
\<close>

definition handle_body ::
  "agent_env \<Rightarrow> dict \<Rightarrow> dict \<Rightarrow> agent_world \<Rightarrow> (exn + command_result) \<times> dict \<times> agent_world" where
  "handle_body env config command w =
     (let cmd_type = dict_get command ''type''
      in if cmd_type = JStr ''RUN_NOW'' then
           (case run_update (cycle env) (runner w) of
              (Inl e, rw) \<Rightarrow> (Inl e, config, w\<lparr>runner := rw\<rparr>)
            | (Inr result, rw) \<Rightarrow>
                (let result_payload =
                       [(''lastStatus'', JStr (r_status result)),
                        (''lastExitCode'', JInt (r_exit_code result)),
                        (''lastDurationSeconds'', JInt (r_duration result))]
                 in if r_status result \<noteq> ''OK''
                    then (Inr (''ERROR'', result_payload, r_message result, False, False),
                          config, w\<lparr>runner := rw\<rparr>)
                    else (Inr (''DONE'', result_payload, None, False, False),
                          config, w\<lparr>runner := rw\<rparr>)))
         else if cmd_type = JStr ''SET_SCHEDULE'' then
           (case command_payload command of
              Inl e \<Rightarrow> (Inl e, config, w)
            | Inr payload \<Rightarrow>
                (let enabled = py_truthy (dict_get payload ''enabled'');
                     d = dict_get payload ''dailyTime'';
                     daily_time = (if py_truthy d then d else JStr ''03:00'');
                     schedule = JDict [(''enabled'', JBool enabled), (''dailyTime'', daily_time)];
                     config' = dict_set ''schedule'' schedule config
                 in case save_config config' w of
                      Inl e \<Rightarrow> (Inl e, config', w)
                    | Inr w1 \<Rightarrow>
                        (Inr (''DONE'', [(''schedule'', schedule)], None, False, False), config',
                         w1\<lparr>services := services w1 @ [SetSchedule enabled daily_time]\<rparr>)))
         else if cmd_type = JStr ''UPDATE_AGENT'' then
           (case update_agent (updater env) (install w) of
              (Inl e, iw) \<Rightarrow> (Inl e, config, w\<lparr>install := iw\<rparr>)
            | (Inr new_version, iw) \<Rightarrow>
                (Inr (''DONE'', [(''version'', JStr new_version)], None, True, False), config,
                 w\<lparr>install := iw\<rparr>))
         else if cmd_type = JStr ''SET_POLL_INTERVAL'' then
           (case command_payload command of
              Inl e \<Rightarrow> (Inl e, config, w)
            | Inr payload \<Rightarrow>
                (case poll_value_of (agent_runtime env) payload of
                   Inl e \<Rightarrow> (Inl e, config, w)
                 | Inr poll_value \<Rightarrow>
                     if poll_value \<le> 0
                     then (Inl (ValueError ''Invalid poll interval''), config, w)
                     else
                       (let config' = dict_set ''pollIntervalSeconds'' (JInt poll_value) config
                        in case save_config config' w of
                             Inl e \<Rightarrow> (Inl e, config', w)
                           | Inr w1 \<Rightarrow>
                               (Inr (''DONE'', [(''pollIntervalSeconds'', JInt poll_value)],
                                     None, True, False), config', w1))))
         else if cmd_type = JStr ''UNINSTALL'' then
           (Inr (''DONE'', [(''uninstalled'', JBool True)], None, False, True), config,
            w\<lparr>services := services w @ [UninstallScheduled]\<rparr>)
         else if cmd_type = JStr ''LIST_LOGS'' then
           (Inr (''DONE'', [(''logs'', JList (list_logs env))], None, False, False), config, w)
         else if cmd_type = JStr ''FETCH_LOG'' then
           (case command_payload command of
              Inl e \<Rightarrow> (Inl e, config, w)
            | Inr payload \<Rightarrow>
                (let log_name = dict_get payload ''logName''
                 in if \<not> py_truthy log_name
                    then (Inl (ValueError ''Missing logName''), config, w)
                    else (case log_name of
                            JStr name \<Rightarrow>
                              (case read_log env name of
                                 Inl e \<Rightarrow> (Inl e, config, w)
                               | Inr result_payload \<Rightarrow>
                                   (Inr (''DONE'', result_payload, None, False, False), config, w))
                          | _ \<Rightarrow> (Inl (TypeError ''expected str, bytes or os.PathLike object''),
                                  config, w))))
         else if cmd_type = JStr ''FETCH_INFO'' then
           (case collect_system_info env of
              Inl e \<Rightarrow> (Inl e, config, w)
            | Inr result_payload \<Rightarrow>
                (Inr (''DONE'', result_payload, None, False, False), config, w))
         else
           (Inr (''ERROR'', [], Some (''Unknown command '' @ py_format env cmd_type), False, False),
            config, w))"

text \<open>
  An exception leaves \<open>result_payload\<close>, \<open>restart\<close> and \<open>exit_after\<close> at their initial
  values: every branch assigns them after its last call that can raise.
\<close>

definition handle_command ::
  "agent_env \<Rightarrow> dict \<Rightarrow> dict \<Rightarrow> agent_world \<Rightarrow> command_result \<times> dict \<times> agent_world" where
  "handle_command env config command w =
     (case handle_body env config command w of
        (Inl exc, config', w') \<Rightarrow> ((''ERROR'', [], Some (exn_str exc), False, False), config', w')
      | (Inr result, config', w') \<Rightarrow> (result, config', w'))"

text \<open>What the \<open>except\<close> clauses make of an exception.\<close>

definition error_result :: "exn \<Rightarrow> command_result" where
  "error_result e = (''ERROR'', [], Some (exn_str e), False, False)"

definition known_command_types :: "string list" where
  "known_command_types =
     [''RUN_NOW'', ''SET_SCHEDULE'', ''UPDATE_AGENT'', ''SET_POLL_INTERVAL'', ''UNINSTALL'',
      ''LIST_LOGS'', ''FETCH_LOG'', ''FETCH_INFO'']"

subsection \<open>An example agent\<close>

definition no_log :: "string \<Rightarrow> exn + dict" where
  "no_log name = Inl (OSError name)"

definition plain_repr :: "json \<Rightarrow> string" where
  "plain_repr v = ''<value>''"

definition agent_env_example :: agent_env where
  "agent_env_example =
     \<lparr>updater = env_no_version, cycle = apt_env, list_logs = [], read_log = no_log,
      collect_system_info = Inr [], py_repr = plain_repr, agent_runtime = default_runtime\<rparr>"

definition agent_config :: dict where
  "agent_config = [(''agentId'', JStr ''a1''), (''pollIntervalSeconds'', JInt 60)]"

definition agent_world_example :: agent_world where
  "agent_world_example =
     \<lparr>config_file = Some agent_config, config_writable = True, install = installed_world,
      runner = busy_host, services = []\<rparr>"

definition set_poll_interval :: "json \<Rightarrow> dict" where
  "set_poll_interval v =
     [(''id'', JStr ''c1''), (''type'', JStr ''SET_POLL_INTERVAL''),
      (''payload'', JDict [(''pollIntervalSeconds'', v)])]"

section \<open>Properties of the shared functions\<close>

lemma digit_char_isdigit: "d < 10 \<Longrightarrow> py_isdigit (digit_char d)"
  by (simp add: digit_char_def py_isdigit_def)

lemma digit_val_digit_char: "d < 10 \<Longrightarrow> digit_val (digit_char d) = d"
  by (simp add: digit_char_def digit_val_def)

lemma str_nat_digits: "list_all py_isdigit (str_nat n)"
proof (induction n rule: str_nat.induct)
  case (1 n)
  show ?case
  proof (cases "n < 10")
    case True
    then show ?thesis by (subst str_nat.simps) (simp add: digit_char_isdigit)
  next
    case False
    with 1 show ?thesis by (subst str_nat.simps) (simp add: digit_char_isdigit)
  qed
qed

lemma str_nat_nonempty: "str_nat n \<noteq> []"
  by (subst str_nat.simps) simp

lemma digits_ok_all_digits: "s \<noteq> [] \<Longrightarrow> list_all py_isdigit s \<Longrightarrow> digits_ok s"
proof (induction s rule: digits_ok.induct)
  case (3 c d cs)
  then show ?case by (auto simp: py_isdigit_def)
qed simp_all

lemma isdigit_not_underscore: "py_isdigit c \<Longrightarrow> c \<noteq> CHR ''_''"
  by (auto simp: py_isdigit_def)

lemma isdigit_not_space: "py_isdigit c \<Longrightarrow> \<not> py_isspace c"
  by (auto simp: py_isdigit_def py_isspace_def)

lemma filter_digits: "list_all py_isdigit s \<Longrightarrow> filter (\<lambda>c. c \<noteq> CHR ''_'') s = s"
  by (induction s) (auto simp: isdigit_not_underscore)

lemma nat_of_digits_str_nat: "nat_of_digits (str_nat n) = n"
proof (induction n rule: str_nat.induct)
  case (1 n)
  show ?case
  proof (cases "n < 10")
    case True
    then show ?thesis
      by (subst str_nat.simps) (simp add: nat_of_digits_def digit_val_digit_char digit_char_isdigit isdigit_not_underscore)
  next
    case False
    have d: "list_all py_isdigit (str_nat (n div 10) @ [digit_char (n mod 10)])"
      by (simp add: str_nat_digits digit_char_isdigit)
    from False 1 have ih: "nat_of_digits (str_nat (n div 10)) = n div 10" by simp
    have "nat_of_digits (str_nat n) = nat_of_digits (str_nat (n div 10) @ [digit_char (n mod 10)])"
      using False by (subst str_nat.simps) simp
    also have "\<dots> = 10 * nat_of_digits (str_nat (n div 10)) + digit_val (digit_char (n mod 10))"
      by (simp only: nat_of_digits_def filter_digits[OF d] filter_digits[OF str_nat_digits]
            foldl_append foldl.simps)
    also have "\<dots> = n" using ih by (simp add: digit_val_digit_char)
    finally show ?thesis .
  qed
qed

lemma str_nat_inj: "str_nat a = str_nat b \<Longrightarrow> a = b"
  by (metis nat_of_digits_str_nat)

lemma str_nat_hd_digit: "py_isdigit (hd (str_nat n))"
  using str_nat_digits[of n] str_nat_nonempty[of n] by (cases "str_nat n") auto

lemma str_nat_last_digit: "py_isdigit (last (str_nat n))"
  using str_nat_digits[of n] str_nat_nonempty[of n]
  by (metis last_in_set list_all_iff)

lemma str_int_inj: "str_int a = str_int b \<Longrightarrow> a = b"
proof -
  assume eq: "str_int a = str_int b"
  have nd: "hd (str_nat n) \<noteq> CHR ''-''" for n
    using str_nat_hd_digit[of n] by (auto simp: py_isdigit_def)
  have hd_pos: "0 \<le> i \<Longrightarrow> hd (str_int i) \<noteq> CHR ''-''" for i
    using nd by (simp add: str_int_def)
  have hd_neg: "i < 0 \<Longrightarrow> hd (str_int i) = CHR ''-''" for i
    by (simp add: str_int_def)
  show "a = b"
  proof (cases "a < 0")
    case True
    then have "b < 0" using eq hd_neg[of a] hd_pos[of b] by (cases "b < 0") auto
    with True eq have "nat (- a) = nat (- b)" by (simp add: str_int_def str_nat_inj)
    with True \<open>b < 0\<close> show ?thesis by simp
  next
    case False
    then have "\<not> b < 0" using eq hd_neg[of b] hd_pos[of a] by (cases "b < 0") auto
    with False eq have "nat a = nat b" by (simp add: str_int_def str_nat_inj)
    with False \<open>\<not> b < 0\<close> show ?thesis by simp
  qed
qed

lemma dropWhile_hd: "s \<noteq> [] \<Longrightarrow> \<not> P (hd s) \<Longrightarrow> dropWhile P s = s"
  by (cases s) auto

lemma c_strip_no_space:
  "s \<noteq> [] \<Longrightarrow> \<not> c_isspace (hd s) \<Longrightarrow> \<not> c_isspace (last s) \<Longrightarrow> c_strip s = s"
  by (simp add: c_strip_def dropWhile_hd hd_rev)

lemma isdigit_not_c_space: "py_isdigit c \<Longrightarrow> \<not> c_isspace c"
  by (auto simp: py_isdigit_def c_isspace_def)

lemma isdigit_ascii: "py_isdigit c \<Longrightarrow> (of_char c :: nat) < 128"
  by (auto simp: py_isdigit_def)

lemma str_nat_ascii: "is_ascii (str_nat n)"
  using str_nat_digits[of n] by (auto simp: is_ascii_def list_all_iff isdigit_ascii)

lemma str_int_ascii: "is_ascii (str_int i)"
  using str_nat_ascii by (simp add: str_int_def is_ascii_def)

lemma int_of_ascii_str_int:
  assumes "\<not> exceeds_digit_limit rt (length (str_nat (nat \<bar>i\<bar>)))"
  shows "int_of_ascii rt (str_int i) = Some i"
proof (cases "i < 0")
  case False
  have h: "hd (str_nat (nat i)) \<noteq> CHR ''-''" "hd (str_nat (nat i)) \<noteq> CHR ''+''"
    using str_nat_hd_digit[of "nat i"] by (auto simp: py_isdigit_def)
  have s: "c_strip (str_nat (nat i)) = str_nat (nat i)"
    by (simp add: c_strip_no_space str_nat_nonempty str_nat_hd_digit str_nat_last_digit
          isdigit_not_c_space)
  obtain c r where cr: "str_nat (nat i) = c # r"
    using str_nat_nonempty[of "nat i"] by (cases "str_nat (nat i)") auto
  with h have c: "c \<noteq> CHR ''-''" "c \<noteq> CHR ''+''" by simp_all
  have ok: "digits_ok (c # r)"
    using digits_ok_all_digits[OF str_nat_nonempty str_nat_digits, of "nat i"] cr by simp
  have v: "nat_of_digits (c # r) = nat i"
    using nat_of_digits_str_nat[of "nat i"] cr by simp
  have f: "filter (\<lambda>c. c \<noteq> CHR ''_'') (c # r) = c # r"
    using filter_digits[OF str_nat_digits, of "nat i"] cr by simp
  have lim: "\<not> exceeds_digit_limit rt (length (c # r))"
    using assms False cr by simp
  have st: "c_strip (str_int i) = c # r" using False s cr by (simp add: str_int_def)
  have "int_of_ascii rt (str_int i) =
          (if digits_ok (c # r)
              \<and> \<not> exceeds_digit_limit rt (length (filter (\<lambda>c. c \<noteq> CHR ''_'') (c # r)))
           then Some (int (nat_of_digits (c # r))) else None)"
    using c by (simp add: int_of_ascii_def Let_def st del: filter.simps)
  then show ?thesis using False ok v lim by (simp only: f) simp
next
  case True
  let ?n = "str_nat (nat (- i))"
  let ?s = "CHR ''-'' # ?n"
  have "\<not> c_isspace (last ?s)"
    using str_nat_last_digit[of "nat (- i)"] str_nat_nonempty[of "nat (- i)"]
    by (simp add: isdigit_not_c_space)
  moreover have "\<not> c_isspace (hd ?s)" by (simp add: c_isspace_def)
  ultimately have s: "c_strip ?s = ?s"
    by (intro c_strip_no_space) simp_all
  have f: "filter (\<lambda>c. c \<noteq> CHR ''_'') ?n = ?n"
    using filter_digits[OF str_nat_digits] .
  have lim: "\<not> exceeds_digit_limit rt (length ?n)"
    using assms True by (simp add: abs_if)
  have si: "str_int i = ?s" using True by (simp add: str_int_def)
  have "int_of_ascii rt (str_int i) =
          (if digits_ok ?n
              \<and> \<not> exceeds_digit_limit rt (length (filter (\<lambda>c. c \<noteq> CHR ''_'') ?n))
           then Some (- int (nat_of_digits ?n)) else None)"
    by (simp add: int_of_ascii_def Let_def si s del: filter.simps)
  then show ?thesis using True lim
    by (simp only: f)
       (simp add: digits_ok_all_digits[OF str_nat_nonempty str_nat_digits] nat_of_digits_str_nat)
qed

lemma py_int_str_int:
  "\<not> exceeds_digit_limit rt (length (str_nat (nat \<bar>i\<bar>))) \<Longrightarrow> py_int rt (str_int i) = Some i"
  by (simp add: py_int_def str_int_ascii int_of_ascii_str_int)

lemma py_str_reads_back: "py_str rt n = Inr s \<Longrightarrow> py_int rt s = Some n"
  by (auto simp: py_str_def py_int_str_int split: if_splits)

section \<open>Properties of the firewall manager\<close>

lemma run_command_world:
  "snd (run_command c w) = w\<lparr>ran := ran w @ [if \<not> euid_root w then ''sudo'' # c else c]\<rparr>"
  by (simp add: run_command_def Let_def split: proc_result.splits)

lemma extends_refl: "extends w w []"
  by (simp add: extends_def)

lemma extends_trans: "extends w w1 t1 \<Longrightarrow> extends w1 w2 t2 \<Longrightarrow> extends w w2 (t1 @ t2)"
  by (simp add: extends_def)


lemma run_command_extends:
  "run_command c w = (r, w') \<Longrightarrow> extends w w' [if \<not> euid_root w then ''sudo'' # c else c]"
  using run_command_world[of c w] by (simp add: extends_def)

lemma extends_euid: "extends w w' t \<Longrightarrow> euid_root w' = euid_root w"
  by (simp add: extends_def)

lemma save_iptables_loop_extends:
  "\<exists>t. extends w (save_iptables_loop cs w) t \<and> set t \<subseteq> with_sudo cs"
proof (induction cs arbitrary: w)
  case Nil
  show ?case using extends_refl by (intro exI[of _ "[]"]) simp
next
  case (Cons c cs)
  obtain ok m w1 where rc: "run_command c w = ((ok, m), w1)"
    by (metis prod.exhaust)
  let ?c = "if \<not> euid_root w then ''sudo'' # c else c"
  have e1: "extends w w1 [?c]" using run_command_extends[OF rc] .
  have c1: "?c \<in> with_sudo (c # cs)" by (simp add: with_sudo_def)
  show ?case
  proof (cases ok)
    case True
    then have "save_iptables_loop (c # cs) w = w1" using rc by simp
    with e1 c1 show ?thesis by (intro exI[of _ "[?c]"]) simp
  next
    case False
    then have eq: "save_iptables_loop (c # cs) w = save_iptables_loop cs w1" using rc by simp
    from Cons.IH[of w1] obtain t where t: "extends w1 (save_iptables_loop cs w1) t" "set t \<subseteq> with_sudo cs"
      by blast
    have "set t \<subseteq> with_sudo (c # cs)" using t(2) by (auto simp: with_sudo_def)
    with extends_trans[OF e1 t(1)] c1 eq show ?thesis
      by (intro exI[of _ "[?c] @ t"]) simp
  qed
qed

lemma with_sudo_mono: "set cs \<subseteq> set ds \<Longrightarrow> with_sudo cs \<subseteq> with_sudo ds"
  by (auto simp: with_sudo_def)

lemma run_command_in:
  assumes "run_command c w = (r, w')" and "c \<in> set cs"
  shows "\<exists>t. extends w w' t \<and> set t \<subseteq> with_sudo cs"
  using run_command_extends[OF assms(1)] assms(2)
  by (intro exI[of _ "[if \<not> euid_root w then ''sudo'' # c else c]"]) (auto simp: with_sudo_def)

lemma extends_seq:
  assumes "\<exists>t. extends w w1 t \<and> set t \<subseteq> S" and "\<exists>t. extends w1 w2 t \<and> set t \<subseteq> S"
  shows "\<exists>t. extends w w2 t \<and> set t \<subseteq> S"
proof -
  from assms obtain t1 t2 where "extends w w1 t1" "set t1 \<subseteq> S" "extends w1 w2 t2" "set t2 \<subseteq> S"
    by blast
  then show ?thesis using extends_trans by (intro exI[of _ "t1 @ t2"]) auto
qed

lemma save_iptables_in:
  assumes "set save_commands \<subseteq> set cs"
  shows "\<exists>t. extends w (save_iptables w) t \<and> set t \<subseteq> with_sudo cs"
  using save_iptables_loop_extends[of w save_commands] with_sudo_mono[OF assms]
  unfolding save_iptables_def by blast

lemma ufw_open_extends:
  "ufw_open_port p pr w = (r, w') \<Longrightarrow> \<exists>t. extends w w' t \<and> set t \<subseteq> with_sudo (open_argvs p pr)"
  unfolding ufw_open_port_def by (erule run_command_in) (simp add: open_argvs_def)


lemma firewalld_open_extends:
  assumes "firewalld_open_port p pr w = (r, w')"
  shows "\<exists>t. extends w w' t \<and> set t \<subseteq> with_sudo (open_argvs p pr)"
proof -
  let ?c1 = "[''firewall-cmd'', ''--permanent'', ''--add-port'', port_spec p pr]"
  obtain ok m w1 where rc: "run_command ?c1 w = ((ok, m), w1)" by (metis prod.exhaust)
  have e1: "\<exists>t. extends w w1 t \<and> set t \<subseteq> with_sudo (open_argvs p pr)"
    by (rule run_command_in[OF rc]) (simp add: open_argvs_def)
  show ?thesis
  proof (cases ok)
    case False
    with assms rc have "w' = w1" by (simp add: firewalld_open_port_def)
    with e1 show ?thesis by simp
  next
    case True
    with assms rc have "run_command [''firewall-cmd'', ''--reload''] w1 = (r, w')"
      by (simp add: firewalld_open_port_def)
    then have "\<exists>t. extends w1 w' t \<and> set t \<subseteq> with_sudo (open_argvs p pr)"
      by (rule run_command_in) (simp add: open_argvs_def)
    with e1 show ?thesis by (rule extends_seq)
  qed
qed


lemma iptables_open_extends:
  assumes "iptables_open_port p pr w = (r, w')"
  shows "\<exists>t. extends w w' t \<and> set t \<subseteq> with_sudo (open_argvs p pr)"
proof -
  let ?S = "with_sudo (open_argvs p pr)"
  let ?c1 = "[''iptables'', ''-C'', ''INPUT'', ''-p'', pr, ''--dport'', str_int p, ''-j'', ''ACCEPT'']"
  let ?c2 = "[''iptables'', ''-I'', ''INPUT'', ''-p'', pr, ''--dport'', str_int p, ''-j'', ''ACCEPT'']"
  obtain ex m w1 where rc1: "run_command ?c1 w = ((ex, m), w1)" by (metis prod.exhaust)
  obtain ok m2 w2 where rc2: "run_command ?c2 w1 = ((ok, m2), w2)" by (metis prod.exhaust)
  have e1: "\<exists>t. extends w w1 t \<and> set t \<subseteq> ?S"
    by (rule run_command_in[OF rc1]) (simp add: open_argvs_def)
  have e2: "\<exists>t. extends w1 w2 t \<and> set t \<subseteq> ?S"
    by (rule run_command_in[OF rc2]) (simp add: open_argvs_def)
  have e3: "\<exists>t. extends w2 (save_iptables w2) t \<and> set t \<subseteq> ?S"
    by (rule save_iptables_in) (auto simp: open_argvs_def)
  consider "ex" | "\<not> ex" "\<not> ok" | "\<not> ex" "ok" by blast
  then show ?thesis
  proof cases
    case 1
    with assms rc1 have "w' = w1" by (auto simp: iptables_open_port_def)
    with e1 show ?thesis by simp
  next
    case 2
    with assms rc1 rc2 have "w' = w2" by (auto simp: iptables_open_port_def)
    with extends_seq[OF e1 e2] show ?thesis by simp
  next
    case 3
    with assms rc1 rc2 have "w' = save_iptables w2" by (auto simp: iptables_open_port_def)
    with extends_seq[OF extends_seq[OF e1 e2] e3] show ?thesis by simp
  qed
qed


lemma backend_open_extends:
  "backend_open t p pr w = (r, w') \<Longrightarrow> \<exists>tr. extends w w' tr \<and> set tr \<subseteq> with_sudo (open_argvs p pr)"
  by (cases t) (simp_all add: backend_open_def ufw_open_extends firewalld_open_extends iptables_open_extends)



lemma port_spec_inj: "port_spec p pr = port_spec q pr \<Longrightarrow> p = q"
  by (simp add: port_spec_def str_int_inj)


lemma save_state_fields [simp]:
  "ran (save_state w) = ran w" "firewall_type (save_state w) = firewall_type w"
  "opened_ports (save_state w) = opened_ports w"
  by (simp_all add: save_state_def)

lemma extends_fields:
  assumes "extends w w' t"
  shows "ran w' = ran w @ t" "firewall_type w' = firewall_type w"
    "opened_ports w' = opened_ports w" "state_file w' = state_file w"
  using assms by (simp_all add: extends_def)







lemma str_int_8090: "str_int 8090 = ''8090''"
  by (simp add: str_int_def str_nat.simps digit_char_def)


lemma py_strip_rule_added: "py_strip ''Rule added'' = ''Rule added''"
  by (simp add: py_strip_def py_isspace_def)

lemma ufw_host_open_8090:
  "open_port 8090 ''tcp'' ufw_host = ((True, ''Rule added''), ufw_host_opened)"
  by (simp add: open_port_def backend_open_def ufw_open_port_def run_command_def save_state_def
        port_spec_def str_int_8090 py_strip_rule_added ufw_host_def ufw_host_opened_def
        ufw_delete_fails_def Let_def)


lemma count_list_distinct: "distinct xs \<Longrightarrow> x \<in> set xs \<Longrightarrow> count_list xs x = 1"
  by (induction xs) auto

lemma ufw_host_open_8090_again:
  "open_port 8090 ''tcp'' ufw_host_opened =
     ((True, ''Rule added''),
      ufw_host_opened\<lparr>ran := [[''sudo'', ''ufw'', ''allow'', ''8090/tcp''],
                               [''sudo'', ''ufw'', ''allow'', ''8090/tcp'']]\<rparr>)"
  by (simp add: open_port_def backend_open_def ufw_open_port_def run_command_def save_state_def
        port_spec_def str_int_8090 py_strip_rule_added ufw_host_def ufw_host_opened_def
        ufw_delete_fails_def Let_def)


lemma extends_oracle: "extends w w' t \<Longrightarrow> subprocess_run w' = subprocess_run w \<and> euid_root w' = euid_root w"
  by (simp add: extends_def)

lemma extends_cons:
  "extends w w1 [c] \<Longrightarrow> \<exists>t. extends w1 w2 t \<and> set t \<subseteq> S \<Longrightarrow> \<exists>rest. extends w w2 (c # rest)"
  using extends_trans by fastforce











text \<open>
  C7 (amended). Let the tracked list have no duplicates and let a first \<open>open_port\<close> succeed.
  \<^item> With a firewall active, a second \<open>open_port\<close> on the same port and protocol reports
    exactly what the backend reports (an already tracked port adds no error of its own),
    leaves \<open>opened_ports\<close> and the state file unchanged, and \<open>opened_ports\<close> holds exactly
    one entry for the port.
  \<^item> With no firewall active, both calls succeed and leave the manager and the host unchanged:
    nothing is tracked.
\<close>

theorem open_port_twice_tracks_once:
  assumes "distinct (opened_ports w)"
    and "open_port port protocol w = ((True, m1), w1)"
    and "open_port port protocol w1 = ((success2, m2), w2)"
  shows "case firewall_type w of
           None \<Rightarrow> success2 \<and> w1 = w \<and> w2 = w
         | Some t \<Rightarrow>
             success2 = fst (fst (backend_open t port protocol w1))
             \<and> opened_ports w2 = opened_ports w1 \<and> state_file w2 = state_file w1
             \<and> count_list (opened_ports w2) (port, protocol) = 1"
proof (cases "firewall_type w")
  case None
  with assms(2) have "w1 = w" by (simp add: open_port_def)
  with assms(3) None show ?thesis by (simp add: open_port_def)
next
  case (Some t)
  obtain ok0 m0 w0 where b0: "backend_open t port protocol w = ((ok0, m0), w0)"
    by (metis prod.exhaust)
  from backend_open_extends[OF b0] obtain tr0 where tr0: "extends w w0 tr0" by blast
  have w1: "(port, protocol) \<in> set (opened_ports w1)" "distinct (opened_ports w1)"
    "firewall_type w1 = Some t"
    using assms(1,2) Some b0 extends_fields[OF tr0]
    by (auto simp: open_port_def split: if_splits)
  obtain ok m w' where b: "backend_open t port protocol w1 = ((ok, m), w')"
    by (metis prod.exhaust)
  from backend_open_extends[OF b] obtain tr where tr: "extends w1 w' tr" by blast
  have "w2 = w'" "success2 = ok"
    using assms(3) w1 b extends_fields[OF tr] by (auto simp: open_port_def split: if_splits)
  with w1 b extends_fields[OF tr] Some show ?thesis
    by (simp add: count_list_distinct)
qed

theorem open_port_twice_tracks_once_witness:
  "distinct (opened_ports ufw_host)
   \<and> open_port 8090 ''tcp'' ufw_host = ((True, ''Rule added''), ufw_host_opened)
   \<and> fst (fst (open_port 8090 ''tcp'' ufw_host_opened))
   \<and> opened_ports (snd (open_port 8090 ''tcp'' ufw_host_opened)) = opened_ports ufw_host_opened
   \<and> count_list (opened_ports (snd (open_port 8090 ''tcp'' ufw_host_opened))) (8090, ''tcp'') = 1"
proof -
  have d: "distinct (opened_ports ufw_host)" by (simp add: ufw_host_def)
  show ?thesis
    using open_port_twice_tracks_once [OF d ufw_host_open_8090 ufw_host_open_8090_again]
      d ufw_host_open_8090 ufw_host_open_8090_again
    by (simp add: ufw_host_def)
qed

text \<open>
  C7 as stated fails on a host with no active firewall: both calls succeed, but
  \<open>opened_ports\<close> holds no entry for the port afterwards.
\<close>

theorem open_port_twice_counterexample:
  "fst (fst (open_port 8080 ''tcp'' bare_host))
   \<and> fst (fst (open_port 8080 ''tcp'' (snd (open_port 8080 ''tcp'' bare_host))))
   \<and> count_list (opened_ports (snd (open_port 8080 ''tcp'' (snd (open_port 8080 ''tcp'' bare_host)))))
        (8080, ''tcp'') \<noteq> 1"
  by (simp add: open_port_def bare_host_def)

text \<open>
  C10. For every port \<open>p\<close>, \<open>update_port p p\<close> reports success, starts no program (the list of
  commands run is unchanged) and returns the manager and the host exactly as they were: the
  tracked ports, the state file and everything else.
\<close>

theorem update_port_same_port_noop:
  "update_port p p protocol w = ((True, ''Port inchang'' @ e_acute), w)"
  by (simp add: update_port_def)

section \<open>Properties of authentication and sessions\<close>

lemma alice_valid: "valid_username env ''alice''"
  by (simp add: valid_username_def py_replace_char_def py_isalnum_def ascii_isalnum_char_def
        is_ascii_def)

lemma bob_valid: "valid_username env ''bob''"
  by (simp add: valid_username_def py_replace_char_def py_isalnum_def ascii_isalnum_char_def
        is_ascii_def)

lemma rene_valid: "valid_username sudo_only_host rene"
  by (simp add: valid_username_def py_replace_char_def py_isalnum_def is_ascii_def rene_def
        e_acute_def sudo_only_host_def letters_rene_def)

lemma rene_unknown:
  "authenticate sudo_only_host rene ''guess'' = (False, msg_auth_failed)"
proof -
  have "rene \<noteq> []" by (simp add: rene_def)
  moreover have "\<not> user_exists sudo_only_host rene"
    by (simp add: user_exists_def sudo_only_host_def rene_def e_acute_def)
  ultimately show ?thesis by (simp add: authenticate_def rene_valid)
qed

lemma alice_rejected:
  "authenticate sudo_only_host ''alice'' ''guess'' = (False, msg_auth_failed)"
  by (simp add: authenticate_def alice_valid user_exists_def user_in_groups_def auth_pam_def
        sudo_only_host_def pam_rejects_def)

lemma validate_session_stored:
  assumes "token \<noteq> []" and "S token = Some s"
  shows "validate_session token t_check t_access t_expires S =
           (if t_check \<le> s_expires s
            then (Some (s_username s),
                  S(token \<mapsto> s\<lparr>s_last_access := t_access,
                                s_expires := t_expires + SESSION_TIMEOUT\<rparr>))
            else (None, S(token := None)))"
  using assms by (simp add: validate_session_def not_less)

lemma create_session_stored:
  assumes "t_cleanup \<le> t_expires + SESSION_TIMEOUT"
  shows "snd (create_session token username t_created t_expires t_access t_cleanup S) token =
           Some \<lparr>s_username = username, s_created = t_created,
                 s_expires = t_expires + SESSION_TIMEOUT, s_last_access = t_access\<rparr>"
  using assms by (simp add: create_session_def cleanup_sessions_def)

lemma login_success:
  assumes "login env username password token t1 t2 t3 t4 S0 = ((True, message, Some tok), S1)"
  shows "tok = token \<and> S1 = snd (create_session token username t1 t2 t3 t4 S0)"
  using assms by (auto simp: login_def create_session_def split: prod.splits if_splits)

lemma bob_logs_in:
  "login open_host ''bob'' ''secret'' ''tok2'' 10 10 10 10 one_session =
     ((True, msg_auth_ok, Some ''tok2''),
      snd (create_session ''tok2'' ''bob'' 10 10 10 10 one_session))"
  by (simp add: login_def authenticate_def bob_valid user_exists_def auth_pam_def
        open_host_def sudo_only_host_def pam_accepts_def create_session_def)

text \<open>
  C4 (amended). A failed \<open>authenticate\<close> reports one of four messages, decided by the first
  check that fails: missing credentials and a malformed user name (one that \<open>str.isalnum\<close>
  refuses once \<open>_\<close> and \<open>-\<close> are removed, letters and digits outside ASCII being accepted as
  the interpreter accepts them) have a message each, a user outside the allowed groups is
  told \<open>Utilisateur non autorise\<close>, and every other failure (unknown user, wrong password, a
  backend that raises or is absent) is reported by the one generic message
  \<open>Authentification echouee\<close>, which does not tell these apart.
\<close>

theorem authenticate_failure_messages:
  assumes "\<not> fst (authenticate env username password)"
  shows "snd (authenticate env username password) =
     (if username = [] \<or> password = [] then msg_required
      else if \<not> valid_username env username then msg_invalid_username
      else if user_exists env username \<and> ALLOWED_GROUPS env \<noteq> []
              \<and> \<not> user_in_groups env username (ALLOWED_GROUPS env)
      then msg_not_authorized
      else msg_auth_failed)"
  using assms by (auto simp: authenticate_def split: if_splits)

theorem authenticate_failure_messages_witness:
  "\<not> fst (authenticate sudo_only_host ''alice'' ''guess'')
   \<and> snd (authenticate sudo_only_host ''alice'' ''guess'') = msg_auth_failed"
proof -
  have h: "\<not> fst (authenticate sudo_only_host ''alice'' ''guess'')"
    by (simp add: alice_rejected)
  show ?thesis
    using h authenticate_failure_messages [OF h]
    by (simp add: alice_valid user_exists_def user_in_groups_def sudo_only_host_def)
qed

text \<open>
  C4 as stated fails for a user outside the allowed groups: \<open>bob\<close> exists but is not in
  \<open>sudo\<close>, and is answered with a message of its own, different from the generic one an
  unknown user (\<open>carol\<close>) gets.
\<close>

theorem authenticate_generic_denial_counterexample:
  "\<not> fst (authenticate sudo_only_host ''bob'' ''guess'')
   \<and> snd (authenticate sudo_only_host ''bob'' ''guess'') = msg_not_authorized
   \<and> snd (authenticate sudo_only_host ''bob'' ''guess'') \<noteq> msg_auth_failed
   \<and> snd (authenticate sudo_only_host ''carol'' ''guess'') = msg_auth_failed"
  by (simp add: authenticate_def bob_valid user_exists_def user_in_groups_def
        sudo_only_host_def msg_not_authorized_def msg_auth_failed_def e_acute_def
        valid_username_def py_replace_char_def py_isalnum_def ascii_isalnum_char_def is_ascii_def)

text \<open>
  C5 (amended). A stored session is valid iff \<open>now \<le> expiresAt\<close>: for a non-empty token with a
  stored session, \<open>validate_session\<close> succeeds exactly when the time read is not after the
  expiry; a successful validation sets the expiry to the time then read plus
  \<open>SESSION_TIMEOUT\<close> and records the access; a validation after the expiry fails and deletes
  the session. The token of a successful \<open>login\<close> validates when checked within the timeout
  of its creation.
\<close>

theorem session_valid_until_expiry:
  assumes "token \<noteq> []"
  shows "(S token = Some s \<longrightarrow>
            ((fst (validate_session token t_check t_access t_expires S) \<noteq> None)
               = (t_check \<le> s_expires s))
          \<and> (t_check \<le> s_expires s \<longrightarrow>
               validate_session token t_check t_access t_expires S =
                 (Some (s_username s),
                  S(token \<mapsto> s\<lparr>s_last_access := t_access,
                                s_expires := t_expires + SESSION_TIMEOUT\<rparr>)))
          \<and> (s_expires s < t_check \<longrightarrow>
               validate_session token t_check t_access t_expires S = (None, S(token := None))))
       \<and> (login env username password token t1 t2 t3 t4 S0 = ((True, message, Some tok), S1)
            \<and> t4 \<le> t2 + SESSION_TIMEOUT \<and> t_check \<le> t2 + SESSION_TIMEOUT \<longrightarrow>
          fst (validate_session tok t_check t_access t_expires S1) = Some username)"
proof -
  have a: "S token = Some s \<longrightarrow>
            ((fst (validate_session token t_check t_access t_expires S) \<noteq> None)
               = (t_check \<le> s_expires s))
          \<and> (t_check \<le> s_expires s \<longrightarrow>
               validate_session token t_check t_access t_expires S =
                 (Some (s_username s),
                  S(token \<mapsto> s\<lparr>s_last_access := t_access,
                                s_expires := t_expires + SESSION_TIMEOUT\<rparr>)))
          \<and> (s_expires s < t_check \<longrightarrow>
               validate_session token t_check t_access t_expires S = (None, S(token := None)))"
    using validate_session_stored[of token S s t_check t_access t_expires] assms by simp
  have b: "login env username password token t1 t2 t3 t4 S0 = ((True, message, Some tok), S1)
            \<and> t4 \<le> t2 + SESSION_TIMEOUT \<and> t_check \<le> t2 + SESSION_TIMEOUT \<longrightarrow>
          fst (validate_session tok t_check t_access t_expires S1) = Some username"
  proof
    assume h: "login env username password token t1 t2 t3 t4 S0 = ((True, message, Some tok), S1)
            \<and> t4 \<le> t2 + SESSION_TIMEOUT \<and> t_check \<le> t2 + SESSION_TIMEOUT"
    then have eq: "tok = token" "S1 = snd (create_session token username t1 t2 t3 t4 S0)"
      using login_success by blast+
    have st: "S1 token = Some \<lparr>s_username = username, s_created = t1,
                 s_expires = t2 + SESSION_TIMEOUT, s_last_access = t3\<rparr>"
      using h eq(2) create_session_stored by simp
    show "fst (validate_session tok t_check t_access t_expires S1) = Some username"
      using validate_session_stored[of token S1 _ t_check t_access t_expires] assms st h eq(1)
      by simp
  qed
  from a b show ?thesis by blast
qed

theorem session_valid_until_expiry_witness:
  "''tok2'' \<noteq> []
   \<and> fst (login open_host ''bob'' ''secret'' ''tok2'' 10 10 10 10 one_session)
       = (True, msg_auth_ok, Some ''tok2'')
   \<and> (10 :: real) \<le> 10 + SESSION_TIMEOUT
   \<and> fst (validate_session ''tok2'' 10 10 10
             (snd (login open_host ''bob'' ''secret'' ''tok2'' 10 10 10 10 one_session)))
       = Some ''bob''"
proof -
  have n: "''tok2'' \<noteq> []" by simp
  have t: "(10 :: real) \<le> 10 + SESSION_TIMEOUT" by (simp add: SESSION_TIMEOUT_def)
  show ?thesis
    using session_valid_until_expiry [OF n,
        of "snd (create_session ''tok2'' ''bob'' 10 10 10 10 one_session)"
        "\<lparr>s_username = ''bob'', s_created = 10, s_expires = 10 + SESSION_TIMEOUT,
          s_last_access = 10\<rparr>" 10 10 10
        open_host "''bob''" "''secret''" 10 10 10 10 one_session msg_auth_ok "''tok2''"
        "snd (create_session ''tok2'' ''bob'' 10 10 10 10 one_session)"]
      bob_logs_in t
    by simp
qed

text \<open>
  C5 as stated (valid iff \<open>now < expiresAt\<close>) fails at \<open>now = expiresAt\<close>: the session that
  expires at 3600 still validates at time 3600.
\<close>

theorem session_valid_at_expiry_counterexample:
  "one_session ''tok'' =
     Some \<lparr>s_username = ''bob'', s_created = 0, s_expires = 3600, s_last_access = 0\<rparr>
   \<and> \<not> ((3600 :: real) < 3600)
   \<and> fst (validate_session ''tok'' 3600 3600 3600 one_session) = Some ''bob''"
  by (simp add: validate_session_def one_session_def)

section \<open>Properties of request signing\<close>

lemma hex_digit_ascii: "d < 16 \<Longrightarrow> (of_char (hex_digit d) :: nat) < 128"
  by (auto simp: hex_digit_def digit_char_def)

lemma hex_byte_ascii: "is_ascii (hex_byte b)"
proof -
  have "unat b div 16 < 16"
    using unsigned_less[of b, where 'a = nat] by (simp add: less_mult_imp_div_less)
  then show ?thesis by (simp add: hex_byte_def is_ascii_def hex_digit_ascii)
qed

lemma is_ascii_append: "is_ascii (a @ b) = (is_ascii a \<and> is_ascii b)"
  by (simp add: is_ascii_def)

lemma hexdigest_ascii: "is_ascii (hexdigest bs)"
proof (induction bs)
  case Nil
  show ?case by (simp add: hexdigest_def is_ascii_def)
next
  case (Cons b bs)
  then show ?case by (simp add: hexdigest_def is_ascii_append hex_byte_ascii)
qed

lemma compare_digest_hexdigest: "compare_digest (hexdigest bs) (hexdigest bs) = Inr True"
  by (simp add: compare_digest_def hexdigest_ascii)

lemma sign_request_headers:
  assumes "sign_request lib urandom_hex t_sign payload secret_key nonce timestamp = Inr h"
  shows "\<exists>payload_json. json_dumps lib payload = Inr payload_json
           \<and> X_Signature h =
               hexdigest (hmac_sha256 lib secret_key
                 (X_Timestamp h @ ''.'' @ X_Nonce h @ ''.'' @ payload_json))
           \<and> (timestamp = None \<longrightarrow>
                 generate_timestamp (lib_runtime lib) t_sign = Inr (X_Timestamp h))
           \<and> X_Nonce h = (case nonce of None \<Rightarrow> urandom_hex | Some n \<Rightarrow> n)"
  using assms by (auto simp: sign_request_def Let_def split: sum.splits option.splits)

lemma int_of_float_examples:
  "int_of_float (2001 / 2) = 1000" "int_of_float 1100 = 1100" "int_of_float 5000 = 5000"
  by (simp_all add: int_of_float_def)

lemma str_int_1000: "str_int 1000 = ''1000''"
  by (simp add: str_int_def str_nat.simps digit_char_def)

lemma toy_sign:
  "sign_request toy_lib ''n0'' (2001 / 2) [(''a'', ''1'')] ''k'' None None = Inr toy_headers"
proof -
  have "str_nat 1000 = ''1000''" by (simp add: str_nat.simps digit_char_def)
  then have "py_str default_runtime 1000 = Inr ''1000''"
    by (simp add: py_str_def exceeds_digit_limit_def str_int_1000)
  then show ?thesis
    by (simp add: sign_request_def toy_lib_def toy_dumps_def toy_headers_def
          generate_timestamp_def int_of_float_examples Let_def)
qed

lemma separator_1000_unread: "py_int (lib_runtime toy_lib) separator_1000 = None"
  by (simp add: py_int_def int_of_ascii_def is_ascii_def separator_1000_def c_strip_def
        c_isspace_def py_isdigit_def Let_def toy_lib_def)

text \<open>
  C3. Let \<open>sign_request\<close> return the headers \<open>h\<close> for a payload and a secret key (that is,
  \<open>json.dumps\<close> accepted the payload), whatever nonce and timestamp were passed or drawn.
  \<^item> A generated timestamp reads back, by \<open>int\<close>, as the clock's whole seconds at signing.
  \<^item> Whenever \<open>int\<close> reads the signed timestamp as an integer \<open>t\<close> with
    \<open>\<bar>now - t\<bar> \<le> max_age\<close>, \<open>verify_signature\<close> on the same payload and key with the
    signature, timestamp and nonce of \<open>h\<close> returns \<open>True\<close>.
  \<^item> Whatever signature, timestamp and nonce are presented (so also the correct ones), a
    timestamp that reads as \<open>t\<close> with \<open>\<bar>now - t\<bar> > max_age\<close> makes \<open>verify_signature\<close>
    return \<open>False\<close>, and so does a timestamp that \<open>int\<close> does not read.
\<close>

theorem sign_verify_roundtrip:
  assumes "sign_request lib urandom_hex t_sign payload secret_key nonce timestamp = Inr h"
  shows "(timestamp = None \<longrightarrow>
            py_int (lib_runtime lib) (X_Timestamp h) = Some (int_of_float t_sign))
       \<and> (\<forall>t. py_int (lib_runtime lib) (X_Timestamp h) = Some t
               \<and> \<bar>int_of_float t_verify - t\<bar> \<le> max_age \<longrightarrow>
            verify_signature lib t_verify payload (X_Signature h) (X_Timestamp h) (X_Nonce h)
              secret_key max_age = Inr True)
       \<and> (\<forall>signature' timestamp' nonce' t.
            py_int (lib_runtime lib) timestamp' = Some t
               \<and> \<bar>int_of_float t_verify - t\<bar> > max_age \<longrightarrow>
            verify_signature lib t_verify payload signature' timestamp' nonce'
              secret_key max_age = Inr False)
       \<and> (\<forall>signature' timestamp' nonce'.
            py_int (lib_runtime lib) timestamp' = None \<longrightarrow>
            verify_signature lib t_verify payload signature' timestamp' nonce'
              secret_key max_age = Inr False)"
proof -
  from sign_request_headers[OF assms] obtain payload_json where
    pj: "json_dumps lib payload = Inr payload_json"
    and sg: "X_Signature h = hexdigest (hmac_sha256 lib secret_key
                 (X_Timestamp h @ ''.'' @ X_Nonce h @ ''.'' @ payload_json))"
    and ts: "timestamp = None \<longrightarrow>
               generate_timestamp (lib_runtime lib) t_sign = Inr (X_Timestamp h)"
    by blast
  have a: "timestamp = None \<longrightarrow>
             py_int (lib_runtime lib) (X_Timestamp h) = Some (int_of_float t_sign)"
    using ts by (auto simp: generate_timestamp_def dest: py_str_reads_back)
  have b: "\<forall>t. py_int (lib_runtime lib) (X_Timestamp h) = Some t
               \<and> \<bar>int_of_float t_verify - t\<bar> \<le> max_age \<longrightarrow>
            verify_signature lib t_verify payload (X_Signature h) (X_Timestamp h) (X_Nonce h)
              secret_key max_age = Inr True"
    using pj sg by (simp add: verify_signature_def Let_def compare_digest_hexdigest)
  have c: "\<forall>signature' timestamp' nonce' t.
            py_int (lib_runtime lib) timestamp' = Some t
               \<and> \<bar>int_of_float t_verify - t\<bar> > max_age \<longrightarrow>
            verify_signature lib t_verify payload signature' timestamp' nonce'
              secret_key max_age = Inr False"
    by (simp add: verify_signature_def Let_def)
  have d: "\<forall>signature' timestamp' nonce'.
            py_int (lib_runtime lib) timestamp' = None \<longrightarrow>
            verify_signature lib t_verify payload signature' timestamp' nonce'
              secret_key max_age = Inr False"
    by (simp add: verify_signature_def)
  from a b c d show ?thesis by blast
qed

theorem sign_verify_roundtrip_witness:
  "sign_request toy_lib ''n0'' (2001 / 2) [(''a'', ''1'')] ''k'' None None = Inr toy_headers
   \<and> py_int (lib_runtime toy_lib) (X_Timestamp toy_headers) = Some 1000
   \<and> verify_signature toy_lib 1100 [(''a'', ''1'')] (X_Signature toy_headers)
         (X_Timestamp toy_headers) (X_Nonce toy_headers) ''k'' 300 = Inr True
   \<and> verify_signature toy_lib 5000 [(''a'', ''1'')] (X_Signature toy_headers)
         (X_Timestamp toy_headers) (X_Nonce toy_headers) ''k'' 300 = Inr False
   \<and> py_int (lib_runtime toy_lib) separator_1000 = None
   \<and> verify_signature toy_lib 1100 [(''a'', ''1'')] (X_Signature toy_headers)
         separator_1000 (X_Nonce toy_headers) ''k'' 300 = Inr False"
  using sign_verify_roundtrip [OF toy_sign, of 1100 300]
    sign_verify_roundtrip [OF toy_sign, of 5000 300] toy_sign separator_1000_unread
  by (simp add: int_of_float_examples)
section \<open>Properties of the self-update\<close>











lemma climbing_temp_fresh:
  "\<forall>p. under (temp_dir_path env_climbing) p \<longrightarrow> fs installed_world p = None"
  by (auto simp: under_def temp_dir_path_def env_climbing_def env_no_version_def
        installed_world_def installed_fs_def)




section \<open>Properties of the package-update cycle\<close>

lemma run_update_phases:
  "run_update env w =
     (case cycle_start env w of
        (False, w0) \<Rightarrow> (Inr refusal, w0)
      | (True, w1) \<Rightarrow>
          (if get_update_commands env = []
           then cycle_finish env (None, ''ERROR'', 2) w1
           else cycle_finish env (fst (run_commands env (get_update_commands env) w1))
                  (snd (run_commands env (get_update_commands env) w1))))"
proof -
  obtain ok w0 where a: "acquire_lock w = (ok, w0)" by (metis prod.exhaust)
  show ?thesis
  proof (cases ok)
    case False
    with a show ?thesis by (simp add: run_update_def cycle_start_def refusal_def)
  next
    case True
    let ?w1 = "w0\<lparr>log_file := log_file w0
                   @ [[CHR 0x0A] @ ''START: '' @ start_human env @ [CHR 0x0A]]\<rparr>"
    have cs: "cycle_start env w = (True, ?w1)" using a True by (simp add: cycle_start_def)
    obtain raised status code w2 where
      l: "(if get_update_commands env = [] then ((None, ''ERROR'', 2), ?w1)
           else run_commands env (get_update_commands env) ?w1) = ((raised, status, code), w2)"
      by (metis prod.exhaust)
    have "run_update env w = cycle_finish env (raised, status, code) w2"
      using a True l
      by (simp only: run_update_def cycle_finish_def Let_def prod.case bool.case if_True)
    with cs l show ?thesis by (auto split: if_splits)
  qed
qed

lemma loop_steps:
  "(caller_step env)\<^sup>*\<^sup>* (w, InLoop cs)
     (snd (run_commands env cs w), PastLoop (fst (run_commands env cs w)))"
proof (induction cs arbitrary: w)
  case Nil
  have "caller_step env (w, InLoop []) (w, PastLoop (None, ''OK'', 0))"
    by (rule caller_step.exhausted)
  then show ?case by simp
next
  case (Cons c cs)
  obtain r w1 where u: "util_run_command env c w = (r, w1)" by (metis prod.exhaust)
  show ?case
  proof (cases r)
    case (Inl e)
    with u have "caller_step env (w, InLoop (c # cs)) (w1, PastLoop (Some e, ''OK'', 0))"
      by (auto intro: caller_step.raised)
    with u Inl show ?thesis by simp
  next
    case (Inr code)
    show ?thesis
    proof (cases "code = 0")
      case False
      with u Inr have "caller_step env (w, InLoop (c # cs)) (w1, PastLoop (None, ''ERROR'', code))"
        by (auto intro: caller_step.failed)
      with u Inr False show ?thesis by simp
    next
      case True
      with u Inr have "caller_step env (w, InLoop (c # cs)) (w1, InLoop cs)"
        by (auto intro: caller_step.passed)
      with Cons.IH[of w1] u Inr True show ?thesis
        by (simp add: converse_rtranclp_into_rtranclp)
    qed
  qed
qed

lemma run_update_steps:
  "(caller_step env)\<^sup>*\<^sup>* (w, Idle) (snd (run_update env w), Returned (fst (run_update env w)))"
proof -
  obtain ok w1 where s: "cycle_start env w = (ok, w1)" by (metis prod.exhaust)
  show ?thesis
  proof (cases ok)
    case False
    with s have "caller_step env (w, Idle) (w1, Returned (Inr refusal))"
      by (auto intro: caller_step.refused)
    with s False show ?thesis by (simp add: run_update_phases)
  next
    case True
    show ?thesis
    proof (cases "get_update_commands env = []")
      case e: True
      let ?f = "cycle_finish env (None, ''ERROR'', 2) w1"
      from s True e have 1: "caller_step env (w, Idle) (w1, PastLoop (None, ''ERROR'', 2))"
        by (auto intro: caller_step.unsupported)
      have 2: "caller_step env (w1, PastLoop (None, ''ERROR'', 2)) (snd ?f, Returned (fst ?f))"
        by (rule caller_step.finished) simp
      from 1 2 s True e show ?thesis by (simp add: run_update_phases)
    next
      case ne: False
      let ?cs = "get_update_commands env"
      let ?l = "run_commands env ?cs w1"
      let ?f = "cycle_finish env (fst ?l) (snd ?l)"
      from s True ne have 1: "caller_step env (w, Idle) (w1, InLoop ?cs)"
        by (auto intro: caller_step.started)
      have 2: "(caller_step env)\<^sup>*\<^sup>* (w1, InLoop ?cs) (snd ?l, PastLoop (fst ?l))"
        by (rule loop_steps)
      have 3: "caller_step env (snd ?l, PastLoop (fst ?l)) (snd ?f, Returned (fst ?f))"
        by (rule caller_step.finished) simp
      have "(caller_step env)\<^sup>*\<^sup>* (w, Idle) (snd ?f, Returned (fst ?f))"
        using 1 2 3 by (meson converse_rtranclp_into_rtranclp rtranclp.rtrancl_into_rtrancl)
      with s True ne show ?thesis by (simp add: run_update_phases)
    qed
  qed
qed

lemma util_run_command_effect:
  assumes "util_run_command env c w = (r, w1)"
  shows "locking w1 = locking w" and "pkg_ran w1 = pkg_ran w @ [(locking w, c)]"
  using assms by (auto simp: util_run_command_def Let_def split: sum.splits prod.splits)

lemma run_commands_effect:
  "\<exists>k. pkg_ran (snd (run_commands env cs w))
          = pkg_ran w @ map (Pair (locking w)) (take k cs)
       \<and> (cs \<noteq> [] \<longrightarrow> 0 < k)
       \<and> locking (snd (run_commands env cs w)) = locking w"
proof (induction cs arbitrary: w)
  case Nil
  show ?case by simp
next
  case (Cons c cs)
  obtain r w1 where u: "util_run_command env c w = (r, w1)" by (metis prod.exhaust)
  note e = util_run_command_effect[OF u]
  have one: "pkg_ran w1 = pkg_ran w @ map (Pair (locking w)) (take 1 (c # cs))"
    using e(2) by simp
  show ?case
  proof (cases "r = Inr 0")
    case False
    then have "snd (run_commands env (c # cs) w) = w1"
      using u by (cases r) auto
    with one e(1) show ?thesis by (intro exI[of _ 1]) simp
  next
    case True
    with u have eq: "run_commands env (c # cs) w = run_commands env cs w1" by simp
    from Cons.IH[of w1] obtain k where
      k: "pkg_ran (snd (run_commands env cs w1)) = pkg_ran w1 @ map (Pair (locking w1)) (take k cs)"
         "locking (snd (run_commands env cs w1)) = locking w1" by blast
    show ?thesis using eq k e by (intro exI[of _ "Suc k"]) simp
  qed
qed

lemma cycle_start_effect:
  assumes "cycle_start env w = (ok, w1)"
  shows "pkg_ran w1 = pkg_ran w"
    and "locking w = Flock True \<Longrightarrow> \<not> ok \<and> w1 = w"
    and "locking w = Flock False \<Longrightarrow> ok \<and> locking w1 = Flock True"
    and "\<not> ok \<Longrightarrow> w1 = w \<and> locking w = Flock True"
  using assms
  by (auto simp: cycle_start_def acquire_lock_def split: lock_facility.splits if_splits)

lemma cycle_finish_effect:
  assumes "cycle_finish env outcome w = (r, w1)"
  shows "pkg_ran w1 = pkg_ran w"
    and "locking w \<noteq> NoFcntl \<Longrightarrow> locking w1 = Flock False"
  using assms
  by (auto simp: cycle_finish_def Let_def write_state_def release_lock_def
        split: prod.splits option.splits lock_facility.splits)

lemma run_update_with_lock:
  assumes "locking w = Flock False"
  shows "\<exists>k. started_since w (snd (run_update env w))
           = map (Pair (Flock True)) (take k (get_update_commands env))
         \<and> (get_update_commands env \<noteq> [] \<longrightarrow> 0 < k)"
    and "locking (snd (run_update env w)) = Flock False"
proof -
  obtain ok w1 where s: "cycle_start env w = (ok, w1)" by (metis prod.exhaust)
  from cycle_start_effect(1,3)[OF s] assms
  have w1: "pkg_ran w1 = pkg_ran w" "ok" "locking w1 = Flock True" by simp_all
  let ?cs = "get_update_commands env"
  obtain k where k: "pkg_ran (snd (run_commands env ?cs w1))
                       = pkg_ran w1 @ map (Pair (locking w1)) (take k ?cs)"
    "?cs \<noteq> [] \<longrightarrow> 0 < k" "locking (snd (run_commands env ?cs w1)) = locking w1"
    using run_commands_effect[of env ?cs w1] by blast
  let ?w2 = "if ?cs = [] then w1 else snd (run_commands env ?cs w1)"
  let ?o = "if ?cs = [] then (None, ''ERROR'', 2) else fst (run_commands env ?cs w1)"
  have ru: "run_update env w = cycle_finish env ?o ?w2"
    using s w1(2) by (simp add: run_update_phases)
  have p2: "pkg_ran ?w2 = pkg_ran w @ map (Pair (Flock True)) (take k ?cs)"
    using k(1) w1 by simp
  have l2: "locking ?w2 = Flock True" using k(3) w1 by simp
  obtain r w3 where f: "cycle_finish env ?o ?w2 = (r, w3)" by (metis prod.exhaust)
  from cycle_finish_effect[OF f] l2 p2
  have "pkg_ran w3 = pkg_ran w @ map (Pair (Flock True)) (take k ?cs)" "locking w3 = Flock False"
    by simp_all
  with ru f k(2)
  show "\<exists>k. started_since w (snd (run_update env w))
           = map (Pair (Flock True)) (take k (get_update_commands env))
         \<and> (get_update_commands env \<noteq> [] \<longrightarrow> 0 < k)"
    and "locking (snd (run_update env w)) = Flock False"
    by (auto simp: started_since_def)
qed

lemma cycles_running_update:
  "i < length cs \<Longrightarrow>
     cycles_running (cs[i := c']) + (if in_cycle (cs ! i) then 1 else 0)
       = cycles_running cs + (if in_cycle c' then 1 else 0)"
proof (induction cs arbitrary: i)
  case Nil
  then show ?case by simp
next
  case (Cons c cs)
  show ?case
  proof (cases i)
    case 0
    then show ?thesis by (simp add: cycles_running_def)
  next
    case (Suc j)
    with Cons.prems have "j < length cs" by simp
    from Cons.IH[OF this] Suc show ?thesis by (simp add: cycles_running_def)
  qed
qed

lemma cycles_running_member:
  "i < length cs \<Longrightarrow> in_cycle (cs ! i) \<Longrightarrow> 0 < cycles_running cs"
  by (auto simp: cycles_running_def filter_empty_conv intro: nth_mem)

lemma one_cycle_step:
  assumes inv: "one_cycle w0 (w, cs)" and step: "host_step env (w, cs) (w', cs')"
  shows "one_cycle w0 (w', cs')"
proof -
  from step obtain i c' where i: "i < length cs" and cs': "cs' = cs[i := c']"
    and st: "caller_step env (w, cs ! i) (w', c')"
    by (auto elim: host_step.cases)
  note cnt = cycles_running_update[OF i, of c']
  from inv have lk: "locking w \<noteq> NoFcntl"
    and free: "locking w = Flock False \<longrightarrow> cycles_running cs = 0"
    and le: "cycles_running cs \<le> 1"
    and len: "length (pkg_ran w0) \<le> length (pkg_ran w)"
    and stamped: "\<forall>e \<in> set (started_since w0 w). fst e = Flock True"
    by (auto simp: one_cycle_def)
  have held: "in_cycle (cs ! i) \<Longrightarrow> locking w = Flock True"
  proof -
    assume "in_cycle (cs ! i)"
    from cycles_running_member[OF i this] free lk show ?thesis
      by (cases "locking w") auto
  qed
  from st show ?thesis
  proof (cases rule: caller_step.cases)
    case refused
    then have "w' = w" using cycle_start_effect(4)[of env w False w'] by simp
    moreover have "\<not> in_cycle (cs ! i)" "\<not> in_cycle c'" using refused by (simp_all add: in_cycle_def)
    ultimately show ?thesis using inv cnt cs' by (simp add: one_cycle_def)
  next
    case started
    then have s: "cycle_start env w = (True, w')" by simp
    have f: "locking w = Flock False"
      using cycle_start_effect(2)[OF s] lk by (cases "locking w") auto
    from cycle_start_effect(1,3)[OF s] f
    have "pkg_ran w' = pkg_ran w" "locking w' = Flock True" by simp_all
    moreover have "\<not> in_cycle (cs ! i)" "in_cycle c'" using started by (simp_all add: in_cycle_def)
    ultimately show ?thesis using f free cnt cs' len stamped
      by (simp add: one_cycle_def started_since_def)
  next
    case unsupported
    then have s: "cycle_start env w = (True, w')" by simp
    have f: "locking w = Flock False"
      using cycle_start_effect(2)[OF s] lk by (cases "locking w") auto
    from cycle_start_effect(1,3)[OF s] f
    have "pkg_ran w' = pkg_ran w" "locking w' = Flock True" by simp_all
    moreover have "\<not> in_cycle (cs ! i)" "in_cycle c'" using unsupported by (simp_all add: in_cycle_def)
    ultimately show ?thesis using f free cnt cs' len stamped
      by (simp add: one_cycle_def started_since_def)
  next
    case (raised command e rest)
    then have u: "util_run_command env command w = (Inl e, w')" by simp
    have ic: "in_cycle (cs ! i)" "in_cycle c'" using raised by (simp_all add: in_cycle_def)
    from util_run_command_effect[OF u] held[OF ic(1)]
    have "locking w' = Flock True" "pkg_ran w' = pkg_ran w @ [(Flock True, command)]" by simp_all
    then show ?thesis using ic cnt cs' le len stamped
      by (auto simp: one_cycle_def started_since_def)
  next
    case (failed command code rest)
    then have u: "util_run_command env command w = (Inr code, w')" by simp
    have ic: "in_cycle (cs ! i)" "in_cycle c'" using failed by (simp_all add: in_cycle_def)
    from util_run_command_effect[OF u] held[OF ic(1)]
    have "locking w' = Flock True" "pkg_ran w' = pkg_ran w @ [(Flock True, command)]" by simp_all
    then show ?thesis using ic cnt cs' le len stamped
      by (auto simp: one_cycle_def started_since_def)
  next
    case (passed command rest)
    then have u: "util_run_command env command w = (Inr 0, w')" by simp
    have ic: "in_cycle (cs ! i)" "in_cycle c'" using passed by (simp_all add: in_cycle_def)
    from util_run_command_effect[OF u] held[OF ic(1)]
    have "locking w' = Flock True" "pkg_ran w' = pkg_ran w @ [(Flock True, command)]" by simp_all
    then show ?thesis using ic cnt cs' le len stamped
      by (auto simp: one_cycle_def started_since_def)
  next
    case exhausted
    then have "w' = w" by simp
    moreover have "in_cycle (cs ! i)" "in_cycle c'" using exhausted by (simp_all add: in_cycle_def)
    ultimately show ?thesis using inv cnt cs' by (simp add: one_cycle_def)
  next
    case (finished outcome result)
    then have f: "cycle_finish env outcome w = (result, w')" by simp
    have ic: "in_cycle (cs ! i)" "\<not> in_cycle c'" using finished by (simp_all add: in_cycle_def)
    from cycle_finish_effect[OF f] lk
    have "pkg_ran w' = pkg_ran w" "locking w' = Flock False" by simp_all
    then show ?thesis using ic cnt cs' le len stamped
      by (auto simp: one_cycle_def started_since_def)
  qed
qed

lemma one_cycle_reachable:
  assumes "(host_step env)\<^sup>*\<^sup>* (w0, cs0) s"
    and "locking w0 \<noteq> NoFcntl" and "cycles_running cs0 = 0"
  shows "one_cycle w0 s"
  using assms
proof (induction rule: rtranclp_induct)
  case base
  then show ?case by (simp add: one_cycle_def started_since_def)
next
  case (step y z)
  then show ?case using one_cycle_step[of w0 "fst y" "snd y" env "fst z" "snd z"] by simp
qed

lemma caller_step_deterministic:
  assumes "caller_step env s a" and "caller_step env s b"
  shows "a = b"
  using assms by (auto elim!: caller_step.cases)

lemma returned_final: "\<not> caller_step env (w, Returned r) t"
  by (auto elim: caller_step.cases)

lemma caller_steps_confluent:
  assumes "(caller_step env)\<^sup>*\<^sup>* a b" and "(caller_step env)\<^sup>*\<^sup>* a (w, Returned r)"
  shows "(caller_step env)\<^sup>*\<^sup>* b (w, Returned r)"
  using assms
proof (induction rule: rtranclp_induct)
  case base
  then show ?case .
next
  case (step y z)
  then have "(caller_step env)\<^sup>*\<^sup>* y (w, Returned r)" by simp
  then show ?case
  proof (cases rule: converse_rtranclpE)
    case base
    with step(2) returned_final show ?thesis by blast
  next
    case (step y')
    with \<open>caller_step env y z\<close> caller_step_deterministic have "y' = z" by blast
    with step show ?thesis by simp
  qed
qed

lemma run_update_only_result:
  assumes "(caller_step env)\<^sup>*\<^sup>* (w, Idle) (w', Returned r)"
  shows "(r, w') = run_update env w"
proof -
  from caller_steps_confluent[OF run_update_steps assms]
  have "(caller_step env)\<^sup>*\<^sup>* (snd (run_update env w), Returned (fst (run_update env w)))
          (w', Returned r)" .
  then show ?thesis
    by (cases rule: converse_rtranclpE) (auto simp: returned_final)
qed

text \<open>
  C2. When the exclusive lock is already held, \<open>run_update\<close> returns at once the result
  \<open>ERROR\<close> with exit code 1, duration 0 and the message \<open>Update already running\<close>, and the
  host is exactly as before: no package-manager command has been started, the state file and
  the log are untouched, and the lock is still held by its holder. When the lock is free,
  \<open>run_update\<close> takes it first, every command it starts is one of the package manager's
  update commands, in their order, started while the lock is held, and the lock is free
  again when it returns. \<open>run_update\<close> is the run of the steps of a caller: from an idle
  caller the steps reach its result and its host, and no other. So, with \<open>flock\<close> there
  and no caller in a cycle at first, whatever the order in which several callers take their
  steps, at most one of them is in a cycle at any moment, none when the lock is free, and
  every command started was started with the lock held.
\<close>

theorem run_update_lock_held:
  "(locking w = Flock True \<longrightarrow>
        run_update env w =
          (Inr \<lparr>r_status = ''ERROR'', r_exit_code = 1, r_duration = 0, r_log_path = None,
                r_message = Some ''Update already running''\<rparr>, w)
      \<and> pkg_ran (snd (run_update env w)) = pkg_ran w
      \<and> state_json (snd (run_update env w)) = state_json w)
   \<and> (locking w = Flock False \<longrightarrow>
        acquire_lock w = (True, w\<lparr>locking := Flock True\<rparr>)
      \<and> (\<exists>k. started_since w (snd (run_update env w))
                 = map (Pair (Flock True)) (take k (get_update_commands env))
             \<and> (get_update_commands env \<noteq> [] \<longrightarrow> 0 < k))
      \<and> locking (snd (run_update env w)) = Flock False)
   \<and> (caller_step env)\<^sup>*\<^sup>* (w, Idle) (snd (run_update env w), Returned (fst (run_update env w)))
   \<and> (\<forall>w1 r. (caller_step env)\<^sup>*\<^sup>* (w, Idle) (w1, Returned r) \<longrightarrow> (r, w1) = run_update env w)
   \<and> (locking w \<noteq> NoFcntl \<and> cycles_running cs = 0 \<and> (host_step env)\<^sup>*\<^sup>* (w, cs) (w', cs') \<longrightarrow>
        cycles_running cs' \<le> 1
      \<and> (locking w' = Flock False \<longrightarrow> cycles_running cs' = 0)
      \<and> (\<forall>e \<in> set (started_since w w'). fst e = Flock True))"
proof -
  have held: "locking w = Flock True \<longrightarrow>
        run_update env w =
          (Inr \<lparr>r_status = ''ERROR'', r_exit_code = 1, r_duration = 0, r_log_path = None,
                r_message = Some ''Update already running''\<rparr>, w)
      \<and> pkg_ran (snd (run_update env w)) = pkg_ran w
      \<and> state_json (snd (run_update env w)) = state_json w"
    by (simp add: run_update_def acquire_lock_def)
  have free: "locking w = Flock False \<longrightarrow>
        acquire_lock w = (True, w\<lparr>locking := Flock True\<rparr>)
      \<and> (\<exists>k. started_since w (snd (run_update env w))
                 = map (Pair (Flock True)) (take k (get_update_commands env))
             \<and> (get_update_commands env \<noteq> [] \<longrightarrow> 0 < k))
      \<and> locking (snd (run_update env w)) = Flock False"
    using run_update_with_lock[of w env] by (simp add: acquire_lock_def)
  have only: "\<forall>w1 r. (caller_step env)\<^sup>*\<^sup>* (w, Idle) (w1, Returned r) \<longrightarrow> (r, w1) = run_update env w"
    using run_update_only_result by blast
  have many: "locking w \<noteq> NoFcntl \<and> cycles_running cs = 0 \<and> (host_step env)\<^sup>*\<^sup>* (w, cs) (w', cs') \<longrightarrow>
        cycles_running cs' \<le> 1
      \<and> (locking w' = Flock False \<longrightarrow> cycles_running cs' = 0)
      \<and> (\<forall>e \<in> set (started_since w w'). fst e = Flock True)"
    using one_cycle_reachable[of env w cs "(w', cs')"] by (simp add: one_cycle_def)
  from held free run_update_steps[of env w] only many show ?thesis by blast
qed

lemma apt_commands:
  "get_update_commands apt_env =
     [[''apt-get'', ''update''], [''apt-get'', ''full-upgrade'', ''-y''],
      [''apt-get'', ''autoremove'', ''-y''], [''apt-get'', ''autoclean'', ''-y'']]"
  by (simp add: get_update_commands_def detect_package_manager_def apt_env_def)

lemma idle_host_starts: "cycle_start apt_env idle_host = (True, started_host)"
  by (simp add: started_host_def cycle_start_def acquire_lock_def idle_host_def busy_host_def)

lemma started_host_locking: "locking started_host = Flock True"
  by (simp add: started_host_def cycle_start_def acquire_lock_def idle_host_def busy_host_def)

lemma started_host_ran: "pkg_ran started_host = []"
  by (simp add: started_host_def cycle_start_def acquire_lock_def idle_host_def busy_host_def)

lemma started_host_refuses: "cycle_start apt_env started_host = (False, started_host)"
  using started_host_locking by (simp add: cycle_start_def acquire_lock_def)

lemma started_host_updates:
  "util_run_command apt_env [''apt-get'', ''update''] started_host = (Inr 0, updating_host)"
  by (simp add: updating_host_def util_run_command_def Let_def apt_env_def apt_ok_def)

lemma updating_host_ran: "pkg_ran updating_host = [(Flock True, [''apt-get'', ''update''])]"
  using util_run_command_effect(2)[OF started_host_updates] started_host_locking started_host_ran
  by simp

lemma two_callers:
  "(host_step apt_env)\<^sup>*\<^sup>* (idle_host, [Idle, Idle])
     (updating_host,
      [InLoop [[''apt-get'', ''full-upgrade'', ''-y''], [''apt-get'', ''autoremove'', ''-y''],
               [''apt-get'', ''autoclean'', ''-y'']],
       Returned (Inr refusal)])"
proof -
  let ?rest = "[[''apt-get'', ''full-upgrade'', ''-y''], [''apt-get'', ''autoremove'', ''-y''],
                [''apt-get'', ''autoclean'', ''-y'']]"
  have "caller_step apt_env (idle_host, Idle) (started_host, InLoop (get_update_commands apt_env))"
    using idle_host_starts apt_commands by (intro caller_step.started) simp_all
  then have s1: "host_step apt_env (idle_host, [Idle, Idle])
                   (started_host, [InLoop ([''apt-get'', ''update''] # ?rest), Idle])"
    using host_step.intros[of 0 "[Idle, Idle]" apt_env idle_host started_host
            "InLoop (get_update_commands apt_env)"]
    by (simp add: apt_commands)
  have "caller_step apt_env (started_host, Idle) (started_host, Returned (Inr refusal))"
    using started_host_refuses by (rule caller_step.refused)
  then have s2: "host_step apt_env (started_host, [InLoop ([''apt-get'', ''update''] # ?rest), Idle])
                   (started_host, [InLoop ([''apt-get'', ''update''] # ?rest), Returned (Inr refusal)])"
    using host_step.intros[of 1 "[InLoop ([''apt-get'', ''update''] # ?rest), Idle]" apt_env
            started_host started_host "Returned (Inr refusal)"]
    by simp
  have "caller_step apt_env (started_host, InLoop ([''apt-get'', ''update''] # ?rest))
          (updating_host, InLoop ?rest)"
    using started_host_updates by (rule caller_step.passed)
  then have s3: "host_step apt_env
                   (started_host, [InLoop ([''apt-get'', ''update''] # ?rest), Returned (Inr refusal)])
                   (updating_host, [InLoop ?rest, Returned (Inr refusal)])"
    using host_step.intros[of 0 "[InLoop ([''apt-get'', ''update''] # ?rest), Returned (Inr refusal)]"
            apt_env started_host updating_host "InLoop ?rest"]
    by simp
  from s1 s2 s3 show ?thesis by simp
qed

lemma busy_host_refused:
  "(caller_step apt_env)\<^sup>*\<^sup>* (busy_host, Idle) (busy_host, Returned (Inr refusal))"
proof -
  have "cycle_start apt_env busy_host = (False, busy_host)"
    by (simp add: cycle_start_def acquire_lock_def busy_host_def)
  then have "caller_step apt_env (busy_host, Idle) (busy_host, Returned (Inr refusal))"
    by (rule caller_step.refused)
  then show ?thesis by simp
qed

theorem run_update_lock_held_witness:
  "locking busy_host = Flock True
   \<and> run_update apt_env busy_host =
       (Inr \<lparr>r_status = ''ERROR'', r_exit_code = 1, r_duration = 0, r_log_path = None,
             r_message = Some ''Update already running''\<rparr>, busy_host)
   \<and> (caller_step apt_env)\<^sup>*\<^sup>* (busy_host, Idle) (busy_host, Returned (Inr refusal))
   \<and> (Inr refusal, busy_host) = run_update apt_env busy_host
   \<and> locking idle_host = Flock False
   \<and> acquire_lock idle_host = (True, busy_host)
   \<and> (\<exists>k>0. started_since idle_host (snd (run_update apt_env idle_host))
              = map (Pair (Flock True)) (take k (get_update_commands apt_env)))
   \<and> locking (snd (run_update apt_env idle_host)) = Flock False
   \<and> cycles_running [Idle, Idle] = 0
   \<and> (host_step apt_env)\<^sup>*\<^sup>* (idle_host, [Idle, Idle])
         (updating_host,
          [InLoop [[''apt-get'', ''full-upgrade'', ''-y''], [''apt-get'', ''autoremove'', ''-y''],
                   [''apt-get'', ''autoclean'', ''-y'']],
           Returned (Inr refusal)])
   \<and> cycles_running
         [InLoop [[''apt-get'', ''full-upgrade'', ''-y''], [''apt-get'', ''autoremove'', ''-y''],
                  [''apt-get'', ''autoclean'', ''-y'']],
          Returned (Inr refusal)] = 1
   \<and> started_since idle_host updating_host = [(Flock True, [''apt-get'', ''update''])]
   \<and> fst (hd (started_since idle_host updating_host)) = Flock True"
proof -
  have h: "locking busy_host = Flock True" by (simp add: busy_host_def)
  have i: "locking idle_host = Flock False" by (simp add: idle_host_def)
  have n: "cycles_running [Idle, Idle] = 0" by (simp add: cycles_running_def in_cycle_def)
  have c: "cycles_running
         [InLoop [[''apt-get'', ''full-upgrade'', ''-y''], [''apt-get'', ''autoremove'', ''-y''],
                  [''apt-get'', ''autoclean'', ''-y'']],
          Returned (Inr refusal)] = 1" by (simp add: cycles_running_def in_cycle_def)
  have s: "started_since idle_host updating_host = [(Flock True, [''apt-get'', ''update''])]"
    using updating_host_ran by (simp add: started_since_def idle_host_def busy_host_def)
  have a: "acquire_lock idle_host = (True, busy_host)"
    by (simp add: acquire_lock_def idle_host_def busy_host_def)
  have g: "get_update_commands apt_env \<noteq> []" by (simp add: apt_commands)
  note held = run_update_lock_held [of busy_host apt_env]
  note free = run_update_lock_held [of idle_host apt_env "[Idle, Idle]" updating_host
      "[InLoop [[''apt-get'', ''full-upgrade'', ''-y''], [''apt-get'', ''autoremove'', ''-y''],
                [''apt-get'', ''autoclean'', ''-y'']],
        Returned (Inr refusal)]"]
  from held h busy_host_refused
  have p1: "run_update apt_env busy_host =
       (Inr \<lparr>r_status = ''ERROR'', r_exit_code = 1, r_duration = 0, r_log_path = None,
             r_message = Some ''Update already running''\<rparr>, busy_host)"
    and p2: "(Inr refusal, busy_host) = run_update apt_env busy_host"
    by blast+
  from free i g
  have p3: "\<exists>k>0. started_since idle_host (snd (run_update apt_env idle_host))
              = map (Pair (Flock True)) (take k (get_update_commands apt_env))"
    and p4: "locking (snd (run_update apt_env idle_host)) = Flock False"
    by blast+
  from free i n two_callers
  have "\<forall>e \<in> set (started_since idle_host updating_host). fst e = Flock True"
    by auto
  then have p5: "fst (hd (started_since idle_host updating_host)) = Flock True"
    by (simp add: s)
  from h p1 busy_host_refused p2 i a p3 p4 n two_callers c s p5 show ?thesis by blast
qed

section \<open>Properties of command dispatch\<close>

lemma dict_get_set_same: "dict_get (dict_set k v d) k = v"
  by (simp add: dict_get_def dict_set_def update_conv')

lemma dict_get_set_other: "k' \<noteq> k \<Longrightarrow> dict_get (dict_set k' v d) k = dict_get d k"
  by (simp add: dict_get_def dict_set_def update_conv')

lemma save_config_cases:
  "save_config data w =
     (if schedule_well_formed data
      then (if config_writable w
            then Inr (w\<lparr>config_file := Some
                   (dict_set ''schedule''
                      (JDict [(''enabled'',
                               JBool (py_truthy (case dict_get data ''schedule'' of
                                  JDict sd \<Rightarrow> (case map_of sd ''enabled'' of
                                                   None \<Rightarrow> JBool False | Some v \<Rightarrow> v)
                                | _ \<Rightarrow> JBool False))),
                              (''dailyTime'',
                               (case dict_get data ''schedule'' of
                                  JDict sd \<Rightarrow> (case map_of sd ''dailyTime'' of
                                                   None \<Rightarrow> JStr ''03:00'' | Some v \<Rightarrow> v)
                                | _ \<Rightarrow> JStr ''03:00''))])
                      data)\<rparr>)
            else Inl (OSError ''Permission denied''))
      else Inl (AttributeError ''object has no attribute get''))"
  by (cases "dict_get data ''schedule''")
     (auto simp: save_config_def schedule_well_formed_def Let_def py_truthy_def split: json.splits)

lemma save_config_persists:
  assumes "save_config data w = Inr w1" and "k \<noteq> ''schedule''"
  shows "\<exists>c. config_file w1 = Some c \<and> dict_get c k = dict_get data k"
  using assms dict_get_set_other[of "''schedule''" k]
  by (auto simp: save_config_cases split: if_splits)

lemma handle_set_poll_interval:
  assumes "dict_get command ''type'' = JStr ''SET_POLL_INTERVAL''"
  shows "handle_command env config command w =
     (case command_payload command of
        Inl e \<Rightarrow> (error_result e, config, w)
      | Inr payload \<Rightarrow>
          (case poll_value_of (agent_runtime env) payload of
             Inl e \<Rightarrow> (error_result e, config, w)
           | Inr n \<Rightarrow>
               if n \<le> 0 then (error_result (ValueError ''Invalid poll interval''), config, w)
               else (case save_config (dict_set ''pollIntervalSeconds'' (JInt n) config) w of
                       Inl e \<Rightarrow>
                         (error_result e, dict_set ''pollIntervalSeconds'' (JInt n) config, w)
                     | Inr w1 \<Rightarrow>
                         ((''DONE'', [(''pollIntervalSeconds'', JInt n)], None, True, False),
                          dict_set ''pollIntervalSeconds'' (JInt n) config, w1))))"
  using assms
  by (simp add: handle_command_def handle_body_def error_result_def Let_def
        split: sum.splits)

lemma set_poll_interval_type:
  "dict_get (set_poll_interval v) ''type'' = JStr ''SET_POLL_INTERVAL''"
  by (simp add: set_poll_interval_def dict_get_def)

lemma set_poll_interval_payload:
  "command_payload (set_poll_interval v) = Inr [(''pollIntervalSeconds'', v)]"
  by (simp add: set_poll_interval_def command_payload_def dict_get_def py_truthy_def)

lemma set_poll_interval_30:
  "handle_command agent_env_example agent_config (set_poll_interval (JInt 30)) agent_world_example =
     ((''DONE'', [(''pollIntervalSeconds'', JInt 30)], None, True, False),
      [(''agentId'', JStr ''a1''), (''pollIntervalSeconds'', JInt 30)],
      agent_world_example\<lparr>config_file :=
        Some [(''agentId'', JStr ''a1''), (''pollIntervalSeconds'', JInt 30),
              (''schedule'', JDict [(''enabled'', JBool False), (''dailyTime'', JStr ''03:00'')])]\<rparr>)"
  by (simp add: handle_set_poll_interval[OF set_poll_interval_type] set_poll_interval_payload
        poll_value_of_def py_int_of_def py_truthy_def dict_get_def dict_set_def save_config_def
        agent_config_def agent_world_example_def Let_def)

lemma set_poll_interval_separator:
  "fst (handle_command agent_env_example agent_config
          (set_poll_interval (JStr (CHR 0x1F # ''30''))) agent_world_example)
     = (''ERROR'', [], Some ''invalid literal for int() with base 10'', False, False)"
  by (simp add: handle_set_poll_interval[OF set_poll_interval_type] set_poll_interval_payload
        poll_value_of_def py_int_of_def py_truthy_def dict_get_def error_result_def exn_str_def
        agent_env_example_def default_runtime_def py_int_def int_of_ascii_def is_ascii_def
        c_strip_def c_isspace_def py_isdigit_def Let_def)

lemma set_poll_interval_arabic_indic:
  "fst (handle_command agent_env_example agent_config
          (set_poll_interval (JStr arabic_indic_30)) agent_world_example)
     = (''DONE'', [(''pollIntervalSeconds'', JInt 30)], None, True, False)"
  by (simp add: handle_set_poll_interval[OF set_poll_interval_type] set_poll_interval_payload
        poll_value_of_def py_int_of_def py_truthy_def dict_get_def dict_set_def save_config_def
        agent_config_def agent_world_example_def agent_env_example_def default_runtime_def
        py_int_def is_ascii_def arabic_indic_30_def read_arabic_indic_30_def Let_def)

text \<open>
  C8 (amended). Dispatching \<open>SET_POLL_INTERVAL\<close> computes
  \<open>n = int(payload.get("pollIntervalSeconds") or 0)\<close>: a float is truncated towards zero, a
  string is read as \<open>int\<close> reads it, \<open>true\<close> counts as 1. The status is \<open>DONE\<close> or \<open>ERROR\<close>.
  \<^item> \<open>ERROR\<close> comes with an empty result, an error message, \<open>restart = False\<close>,
    \<open>exit_after = False\<close> and the world unchanged, the configuration file included.
  \<^item> \<open>DONE\<close> comes only for a value that converts to some \<open>n > 0\<close>; then the result and the
    configuration file both hold \<open>pollIntervalSeconds = n\<close> and \<open>restart = True\<close>.
  \<^item> A value that converts to \<open>n > 0\<close> gives \<open>DONE\<close> whenever the configuration can be
    saved (the file is writable and the schedule entry is well formed).
  \<^item> A missing value and an integer \<open>n \<le> 0\<close> give \<open>ERROR\<close>.
\<close>

theorem set_poll_interval_dispatch:
  assumes "dict_get command ''type'' = JStr ''SET_POLL_INTERVAL''"
    and "handle_command env config command w =
           ((status, result_payload, error_message, restart, exit_after), config', w')"
  shows "(status = ''DONE'' \<or> status = ''ERROR'')
       \<and> (status = ''ERROR'' \<longrightarrow>
            result_payload = [] \<and> error_message \<noteq> None \<and> \<not> restart \<and> \<not> exit_after \<and> w' = w)
       \<and> (status = ''DONE'' \<longrightarrow>
            (\<exists>payload n c. command_payload command = Inr payload
               \<and> poll_value_of (agent_runtime env) payload = Inr n \<and> 0 < n
               \<and> result_payload = [(''pollIntervalSeconds'', JInt n)] \<and> error_message = None
               \<and> restart \<and> \<not> exit_after
               \<and> config' = dict_set ''pollIntervalSeconds'' (JInt n) config
               \<and> config_file w' = Some c \<and> dict_get c ''pollIntervalSeconds'' = JInt n))
       \<and> (\<forall>payload n. command_payload command = Inr payload
               \<and> poll_value_of (agent_runtime env) payload = Inr n \<and> 0 < n
               \<and> config_writable w \<and> schedule_well_formed config \<longrightarrow> status = ''DONE'')
       \<and> (\<forall>payload. command_payload command = Inr payload
               \<and> (dict_get payload ''pollIntervalSeconds'' = JNull
                    \<or> (\<exists>n \<le> 0. dict_get payload ''pollIntervalSeconds'' = JInt n))
               \<longrightarrow> status = ''ERROR'')"
proof -
  note h = handle_set_poll_interval[OF assms(1), of env config w] assms(2)
  show ?thesis
  proof (cases "command_payload command")
    case (Inl e)
    with h show ?thesis by (simp add: error_result_def)
  next
    case (Inr payload)
    note pl = Inr
    show ?thesis
    proof (cases "poll_value_of (agent_runtime env) payload")
      case (Inl e)
      with h pl show ?thesis
        by (auto simp: error_result_def poll_value_of_def py_int_of_def py_truthy_def Let_def)
    next
      case (Inr n)
      note pv = Inr
      show ?thesis
      proof (cases "n \<le> 0")
        case True
        with h pl pv show ?thesis by (simp add: error_result_def)
      next
        case False
        let ?c = "dict_set ''pollIntervalSeconds'' (JInt n) config"
        have swf: "schedule_well_formed ?c = schedule_well_formed config"
          by (simp add: schedule_well_formed_def dict_get_set_other)
        have notbad: "\<not> (dict_get payload ''pollIntervalSeconds'' = JNull
                    \<or> (\<exists>m \<le> 0. dict_get payload ''pollIntervalSeconds'' = JInt m))"
          using pv False
          by (auto simp: poll_value_of_def py_int_of_def py_truthy_def Let_def split: if_splits)
        show ?thesis
        proof (cases "save_config ?c w")
          case (Inl e)
          then have "\<not> (config_writable w \<and> schedule_well_formed config)"
            using swf by (auto simp: save_config_cases split: if_splits)
          with h pl pv False Inl notbad show ?thesis by (simp add: error_result_def)
        next
          case (Inr w1)
          from save_config_persists[OF Inr, of "''pollIntervalSeconds''"]
          obtain c where c: "config_file w1 = Some c" "dict_get c ''pollIntervalSeconds'' = JInt n"
            by (auto simp: dict_get_set_same)
          with h pl pv False Inr notbad show ?thesis by simp
        qed
      qed
    qed
  qed
qed

theorem set_poll_interval_dispatch_witness:
  "dict_get (set_poll_interval (JInt 30)) ''type'' = JStr ''SET_POLL_INTERVAL''
   \<and> fst (handle_command agent_env_example agent_config (set_poll_interval (JInt 30))
            agent_world_example)
       = (''DONE'', [(''pollIntervalSeconds'', JInt 30)], None, True, False)
   \<and> (\<exists>c. config_file (snd (snd (handle_command agent_env_example agent_config
                 (set_poll_interval (JInt 30)) agent_world_example))) = Some c
          \<and> dict_get c ''pollIntervalSeconds'' = JInt 30)"
  using set_poll_interval_dispatch [OF set_poll_interval_type set_poll_interval_30]
    set_poll_interval_type set_poll_interval_30
  by (simp add: dict_get_def)

text \<open>
  C8 as stated fails for a positive value below 1: \<open>0.5\<close> is strictly positive, but
  \<open>int(0.5) = 0\<close> and the command is refused.
\<close>

theorem set_poll_interval_fraction_counterexample:
  "(0 :: real) < 1 / 2
   \<and> handle_command agent_env_example agent_config (set_poll_interval (JFloat (Finite (1 / 2))))
       agent_world_example
     = ((''ERROR'', [], Some ''Invalid poll interval'', False, False), agent_config,
        agent_world_example)"
  by (simp add: handle_set_poll_interval[OF set_poll_interval_type] set_poll_interval_payload
        poll_value_of_def py_int_of_def py_truthy_def dict_get_def int_of_float_def
        error_result_def exn_str_def Let_def)

text \<open>
  C9. For every command whose type is none of the eight known ones (a missing type, a type
  that is not a string and an unknown string alike), the body of \<open>handle_command\<close> completes
  without raising, and \<open>handle_command\<close> returns status \<open>ERROR\<close>, an empty result, the
  message \<open>Unknown command\<close> followed by the type, \<open>restart = False\<close> and
  \<open>exit_after = False\<close>, with the configuration and the world unchanged.
\<close>

theorem unknown_command_error:
  assumes "dict_get command ''type'' \<notin> JStr ` set known_command_types"
  shows "handle_body env config command w =
           (Inr (''ERROR'', [],
                 Some (''Unknown command '' @ py_format env (dict_get command ''type'')),
                 False, False), config, w)
       \<and> handle_command env config command w =
           ((''ERROR'', [],
             Some (''Unknown command '' @ py_format env (dict_get command ''type'')),
             False, False), config, w)"
  using assms
  by (simp add: handle_command_def handle_body_def known_command_types_def Let_def image_iff)

theorem unknown_command_error_witness:
  "dict_get [(''id'', JStr ''c2''), (''type'', JStr ''REBOOT'')] ''type''
     \<notin> JStr ` set known_command_types
   \<and> handle_command agent_env_example agent_config
         [(''id'', JStr ''c2''), (''type'', JStr ''REBOOT'')] agent_world_example
     = ((''ERROR'', [], Some ''Unknown command REBOOT'', False, False), agent_config,
        agent_world_example)"
proof -
  have h: "dict_get [(''id'', JStr ''c2''), (''type'', JStr ''REBOOT'')] ''type''
             \<notin> JStr ` set known_command_types"
    by (simp add: dict_get_def known_command_types_def)
  show ?thesis
    using h unknown_command_error [OF h, of agent_env_example agent_config agent_world_example]
    by (simp add: dict_get_def py_format_def)
qed

end
